theory Spec2Isabelle
  imports Complex_Main
begin

section \<open>Substitute Soccer (soccer.py): the model\<close>

text \<open>
  The match simulator of \<^verbatim>\<open>soccer-master/soccer.py\<close> as HOL functions. Python floats are
  idealised as real numbers and Python ints as \<^typ>\<open>int\<close> (or \<^typ>\<open>nat\<close> where the value
  is a list index: a team number, a roster slot). Object references become indices into
  the roster: \<^verbatim>\<open>game.players[i]\<close> is \<^verbatim>\<open>players g ! i\<close>. The global \<^verbatim>\<open>game\<close> and the
  global dictionary \<^verbatim>\<open>key_status\<close> are one record that every function receives and the
  mutating ones return. An exception is a value \<^verbatim>\<open>Inl e\<close> of the result.
\<close>

subsection \<open>Errors, constants, vectors\<close>

datatype py_error = ZeroDivisionError | IndexError | TypeError | ValueError

named_theorems geom \<open>the numeric constants of the source\<close>
named_theorems vec \<open>the vector operations\<close>

type_synonym Vector2 = "real \<times> real"

definition LEVEL_W :: real where [geom]: "LEVEL_W = 1000"
definition LEVEL_H :: real where [geom]: "LEVEL_H = 1400"
definition HALF_LEVEL_W :: real where [geom]: "HALF_LEVEL_W = LEVEL_W / 2"
definition HALF_LEVEL_H :: real where [geom]: "HALF_LEVEL_H = LEVEL_H / 2"
definition HALF_PITCH_W :: real where [geom]: "HALF_PITCH_W = 442"
definition HALF_PITCH_H :: real where [geom]: "HALF_PITCH_H = 622"
definition GOAL_WIDTH :: real where [geom]: "GOAL_WIDTH = 186"
definition GOAL_DEPTH :: real where [geom]: "GOAL_DEPTH = 20"
definition HALF_GOAL_W :: real where [geom]: "HALF_GOAL_W = GOAL_WIDTH / 2"

definition PITCH_BOUNDS_X :: "real \<times> real" where
  [geom]: "PITCH_BOUNDS_X = (HALF_LEVEL_W - HALF_PITCH_W, HALF_LEVEL_W + HALF_PITCH_W)"
definition PITCH_BOUNDS_Y :: "real \<times> real" where
  [geom]: "PITCH_BOUNDS_Y = (HALF_LEVEL_H - HALF_PITCH_H, HALF_LEVEL_H + HALF_PITCH_H)"
definition GOAL_BOUNDS_X :: "real \<times> real" where
  [geom]: "GOAL_BOUNDS_X = (HALF_LEVEL_W - HALF_GOAL_W, HALF_LEVEL_W + HALF_GOAL_W)"
definition GOAL_BOUNDS_Y :: "real \<times> real" where
  [geom]: "GOAL_BOUNDS_Y = (HALF_LEVEL_H - HALF_PITCH_H - GOAL_DEPTH,
                            HALF_LEVEL_H + HALF_PITCH_H + GOAL_DEPTH)"

text \<open>A \<^verbatim>\<open>pygame.Rect\<close> as (left, top, width, height).\<close>

type_synonym Rect = "real \<times> real \<times> real \<times> real"

definition PITCH_RECT :: Rect where
  [geom]: "PITCH_RECT = (fst PITCH_BOUNDS_X, fst PITCH_BOUNDS_Y, HALF_PITCH_W * 2, HALF_PITCH_H * 2)"
definition GOAL_0_RECT :: Rect where
  [geom]: "GOAL_0_RECT = (fst GOAL_BOUNDS_X, fst GOAL_BOUNDS_Y, GOAL_WIDTH, GOAL_DEPTH)"
definition GOAL_1_RECT :: Rect where
  [geom]: "GOAL_1_RECT = (fst GOAL_BOUNDS_X, snd GOAL_BOUNDS_Y - GOAL_DEPTH, GOAL_WIDTH, GOAL_DEPTH)"

definition PLAYER_START_POS :: "(int \<times> int) list" where
  "PLAYER_START_POS =
     [(350, 550), (650, 450), (200, 850), (500, 750), (800, 950), (350, 1250), (650, 1150)]"

definition LEAD_DISTANCE_1 :: int where [geom]: "LEAD_DISTANCE_1 = 10"
definition LEAD_DISTANCE_2 :: int where [geom]: "LEAD_DISTANCE_2 = 50"
definition DRIBBLE_DIST_X :: real where [geom]: "DRIBBLE_DIST_X = 18"
definition DRIBBLE_DIST_Y :: real where [geom]: "DRIBBLE_DIST_Y = 16"
definition HUMAN_PLAYER_WITHOUT_BALL_SPEED :: real where
  [geom]: "HUMAN_PLAYER_WITHOUT_BALL_SPEED = 3.3"
definition KICK_STRENGTH :: real where [geom]: "KICK_STRENGTH = 11.5"
definition DRAG :: real where [geom]: "DRAG = 0.98"

definition vadd :: "Vector2 \<Rightarrow> Vector2 \<Rightarrow> Vector2" where
  [vec]: "vadd a b = (fst a + fst b, snd a + snd b)"
definition vsub :: "Vector2 \<Rightarrow> Vector2 \<Rightarrow> Vector2" where
  [vec]: "vsub a b = (fst a - fst b, snd a - snd b)"
definition vscale :: "Vector2 \<Rightarrow> real \<Rightarrow> Vector2" where
  [vec]: "vscale a k = (fst a * k, snd a * k)"
definition vdot :: "Vector2 \<Rightarrow> Vector2 \<Rightarrow> real" where
  [vec]: "vdot a b = fst a * fst b + snd a * snd b"
definition vlength :: "Vector2 \<Rightarrow> real" where
  "vlength a = sqrt (fst a * fst a + snd a * snd a)"

text \<open>\<^verbatim>\<open>sin\<close>, \<^verbatim>\<open>cos\<close> of the source: angles 0 to 7, 0 is up, clockwise.\<close>

definition sin8 :: "real \<Rightarrow> real" where
  "sin8 a = sin (a * pi / 4)"
definition cos8 :: "real \<Rightarrow> real" where
  "cos8 a = sin8 (a + 2)"
definition angle_to_vec :: "real \<Rightarrow> Vector2" where
  "angle_to_vec angle = (sin8 angle, - cos8 angle)"

text \<open>\<^verbatim>\<open>dist_key(pos)\<close>: the distance of a position from \<^verbatim>\<open>pos\<close>.\<close>

definition dist_key :: "Vector2 \<Rightarrow> Vector2 \<Rightarrow> real" where
  "dist_key pos q = vlength (vsub q pos)"

definition safe_normalise :: "Vector2 \<Rightarrow> Vector2 \<times> real" where
  "safe_normalise v =
     (let len = vlength v
      in if len = 0 then ((0, 0), 0) else ((fst v / len, snd v / len), len))"

text \<open>Python's \<^verbatim>\<open>min(xs, key=k)\<close> on a non-empty list: the first element of least key.\<close>

definition min_key :: "('a \<Rightarrow> real) \<Rightarrow> 'a \<Rightarrow> 'a list \<Rightarrow> 'a" where
  "min_key k x xs = foldl (\<lambda>best e. if k e < k best then e else best) x xs"

definition py_min :: "('a \<Rightarrow> real) \<Rightarrow> 'a list \<Rightarrow> py_error + 'a" where
  "py_min k xs = (case xs of [] \<Rightarrow> Inl ValueError | x # r \<Rightarrow> Inr (min_key k x r))"

subsection \<open>Ball physics for one axis, and the step count of a kick\<close>

definition ball_physics :: "real \<Rightarrow> real \<Rightarrow> real \<times> real \<Rightarrow> real \<times> real" where
  "ball_physics pos v bounds =
     (let pos1 = pos + v;
          (pos2, v2) = (if pos1 < fst bounds \<or> pos1 > snd bounds
                        then (pos1 - v, - v) else (pos1, v))
      in (pos2, v2 * DRAG))"

function steps_loop :: "real \<Rightarrow> int \<Rightarrow> real \<Rightarrow> int" where
  "steps_loop distance n v =
     (if distance > 0 \<and> v > 0.25
      then steps_loop (distance - v) (n + 1) (v * DRAG)
      else n)"
  by pat_completeness auto
termination
proof (relation "measure (\<lambda>(d, n, v). nat \<lceil>4 * d\<rceil>)")
  show "wf (measure (\<lambda>(d::real, n::int, v::real). nat \<lceil>4 * d\<rceil>))" by simp
next
  fix distance :: real and n :: int and v :: real
  assume a: "distance > 0 \<and> v > 0.25"
  then have "4 * (distance - v) \<le> 4 * distance - 1" by simp
  then have "\<lceil>4 * (distance - v)\<rceil> \<le> \<lceil>4 * distance - 1\<rceil>" by (rule ceiling_mono)
  moreover have "\<lceil>4 * distance - 1\<rceil> = \<lceil>4 * distance\<rceil> - 1" by simp
  moreover have "\<lceil>4 * distance\<rceil> > 0" using a by simp
  ultimately show "((distance - v, n + 1, v * DRAG), (distance, n, v))
        \<in> measure (\<lambda>(d, n, v). nat \<lceil>4 * d\<rceil>)"
    by simp
qed

declare steps_loop.simps [simp del]

definition steps :: "real \<Rightarrow> int" where
  "steps distance = steps_loop distance 0 KICK_STRENGTH"

subsection \<open>The data model\<close>

text \<open>A pass or shot target is a player or a goal; a player marks a player or a goal.\<close>

datatype entity = PlayerRef nat | GoalRef nat

record player =
  vpos :: Vector2
  home :: Vector2
  team :: nat
  dir :: int
  timer :: int
  peer :: nat
  mark :: "entity option"
  lead :: "int option"

record goal =
  goal_vpos :: Vector2
  goal_team :: nat

record ball =
  ball_vpos :: Vector2
  ball_vel :: Vector2
  ball_owner :: "nat option"
  ball_timer :: int

text \<open>\<^verbatim>\<open>Team.controls\<close> is \<^verbatim>\<open>None\<close> or \<^verbatim>\<open>Controls(player_num)\<close>.\<close>

record team_rec =
  controls :: "nat option"
  active_control_player :: "nat option"
  score :: int

record difficulty_rec =
  goalie_enabled :: bool
  second_lead_enabled :: bool
  speed_boost :: real
  holdoff_timer :: int

datatype key = Key_UP | Key_DOWN | Key_LEFT | Key_RIGHT | Key_SPACE | Key_W | Key_S | Key_A | Key_D
  | Key_LSHIFT

record game =
  teams :: "team_rec list"
  difficulty :: difficulty_rec
  score_timer :: int
  scoring_team :: nat
  players :: "player list"
  goals :: "goal list"
  kickoff_player :: "nat option"
  ball :: ball
  camera_focus :: Vector2
  debug_shoot_target :: "Vector2 option"
  key_status :: "key \<rightharpoonup> bool"

definition DIFFICULTY :: "difficulty_rec list" where
  "DIFFICULTY =
     [\<lparr>goalie_enabled = False, second_lead_enabled = False, speed_boost = 0, holdoff_timer = 120\<rparr>,
      \<lparr>goalie_enabled = False, second_lead_enabled = True, speed_boost = 0.1, holdoff_timer = 90\<rparr>,
      \<lparr>goalie_enabled = True, second_lead_enabled = True, speed_boost = 0.2, holdoff_timer = 60\<rparr>]"

definition human :: "team_rec \<Rightarrow> bool" where
  "human t = (controls t \<noteq> None)"

definition key_shoot :: "nat \<Rightarrow> key" where
  "key_shoot player_num = (if player_num = 0 then Key_SPACE else Key_LSHIFT)"

text \<open>
  \<^verbatim>\<open>key_just_pressed(key)\<close>: true when the key is down now and was not down at the previous
  call; it stores the key's state for the next call. \<^verbatim>\<open>keyboard\<close> is the input.
\<close>

definition key_just_pressed ::
  "(key \<Rightarrow> bool) \<Rightarrow> (key \<rightharpoonup> bool) \<Rightarrow> key \<Rightarrow> bool \<times> (key \<rightharpoonup> bool)" where
  "key_just_pressed keyboard ks k =
     (let prev_status = (case ks k of None \<Rightarrow> False | Some b \<Rightarrow> b)
      in (\<not> prev_status \<and> keyboard k, ks(k \<mapsto> keyboard k)))"

definition ent_vpos :: "game \<Rightarrow> entity \<Rightarrow> Vector2" where
  "ent_vpos g e = (case e of PlayerRef i \<Rightarrow> vpos (players g ! i) | GoalRef i \<Rightarrow> goal_vpos (goals g ! i))"

definition ent_team :: "game \<Rightarrow> entity \<Rightarrow> nat" where
  "ent_team g e = (case e of PlayerRef i \<Rightarrow> team (players g ! i) | GoalRef i \<Rightarrow> goal_team (goals g ! i))"

subsection \<open>Targeting and cost\<close>

text \<open>
  \<^verbatim>\<open>targetable(target, source)\<close>. The loop over \<^verbatim>\<open>game.players\<close> returns False at the
  first opposing player in the passing lane; it only runs for a computer-controlled source.
\<close>

definition lane_blocker :: "Vector2 \<Rightarrow> real \<Rightarrow> nat \<Rightarrow> Vector2 \<Rightarrow> player \<Rightarrow> bool" where
  "lane_blocker v0 d0 target_team source_pos p =
     (let (v1, d1) = safe_normalise (vsub (vpos p) source_pos)
      in team p \<noteq> target_team \<and> d1 > 0 \<and> d1 < d0 \<and> vdot v0 v1 > 0.8)"

definition targetable :: "game \<Rightarrow> entity \<Rightarrow> player \<Rightarrow> bool" where
  "targetable g target source =
     (let (v0, d0) = safe_normalise (vsub (ent_vpos g target) (vpos source))
      in if \<not> human (teams g ! team source)
            \<and> list_ex (lane_blocker v0 d0 (ent_team g target) (vpos source)) (players g)
         then False
         else ent_team g target = team source \<and> d0 > 0 \<and> d0 < 300
              \<and> vdot v0 (angle_to_vec (real_of_int (dir source))) > 0.8)"

definition avg :: "real \<Rightarrow> real \<Rightarrow> real" where
  "avg a b = (if \<bar>b - a\<bar> < 1 then b else (a + b) / 2)"

text \<open>\<^verbatim>\<open>Rect.collidepoint\<close>: the right and bottom edges are outside the rectangle.\<close>

definition collidepoint :: "Rect \<Rightarrow> real \<Rightarrow> real \<Rightarrow> bool" where
  "collidepoint r px py =
     (case r of (rl, rt, rw, rh) \<Rightarrow> rl \<le> px \<and> px < rl + rw \<and> rt \<le> py \<and> py < rt + rh)"

definition on_pitch :: "real \<Rightarrow> real \<Rightarrow> bool" where
  "on_pitch px py = (collidepoint PITCH_RECT px py
                     \<or> collidepoint GOAL_0_RECT px py
                     \<or> collidepoint GOAL_1_RECT px py)"

text \<open>
  \<^verbatim>\<open>cost(pos, team, handicap)\<close> returns the pair \<^verbatim>\<open>(result, pos)\<close>. Its first division is by
  the distance of \<^verbatim>\<open>pos\<close> from the entrance of the own goal: Python raises
  \<^verbatim>\<open>ZeroDivisionError\<close> when that distance is 0.
\<close>

definition own_goal_pos :: "nat \<Rightarrow> Vector2" where
  "own_goal_pos tm = (HALF_LEVEL_W, if tm = 1 then 78 else LEVEL_H - 78)"

definition cost :: "game \<Rightarrow> Vector2 \<Rightarrow> nat \<Rightarrow> real \<Rightarrow> py_error + (real \<times> Vector2)" where
  "cost g pos tm handicap =
     (let d = vlength (vsub pos (own_goal_pos tm))
      in if d = 0 then Inl ZeroDivisionError
         else
           let inverse_own_goal_distance = 3500 / d;
               result = inverse_own_goal_distance
                 + sum_list (map (\<lambda>p. 4000 / max 24 (vlength (vsub (vpos p) pos)))
                                 (filter (\<lambda>p. team p \<noteq> tm) (players g)))
                 + ((fst pos - HALF_LEVEL_W)\<^sup>2 / 200 - snd pos * (4 * real tm - 2))
                 + handicap
           in Inr (result, pos))"

text \<open>
  Python's \<^verbatim>\<open><\<close> on two \<^verbatim>\<open>(float, Vector2)\<close> tuples: the first components decide when they
  differ; when they are equal the vectors are compared, and \<^verbatim>\<open>Vector2\<close> has no order
  (the source says so in \<^verbatim>\<open>Player.update\<close>), so unequal vectors raise \<^verbatim>\<open>TypeError\<close>.
\<close>

definition tuple_lt :: "real \<times> Vector2 \<Rightarrow> real \<times> Vector2 \<Rightarrow> py_error + bool" where
  "tuple_lt a b =
     (if fst a \<noteq> fst b then Inr (fst a < fst b)
      else if snd a = snd b then Inr False
      else Inl TypeError)"

subsection \<open>Ball.update\<close>

definition collide :: "ball \<Rightarrow> player \<Rightarrow> bool" where
  "collide b p = (timer p < 0 \<and> vlength (vsub (vpos p) (ball_vpos b)) \<le> DRIBBLE_DIST_X)"

text \<open>Lines 250 to 298: the timer, then dribbling (owned) or physics (free).\<close>

definition bounds_x :: "Vector2 \<Rightarrow> real \<times> real" where
  "bounds_x bpos = (if \<bar>snd bpos - HALF_LEVEL_H\<bar> > HALF_PITCH_H then GOAL_BOUNDS_X else PITCH_BOUNDS_X)"

definition bounds_y :: "Vector2 \<Rightarrow> real \<times> real" where
  "bounds_y bpos = (if \<bar>fst bpos - HALF_LEVEL_W\<bar> < HALF_GOAL_W then GOAL_BOUNDS_Y else PITCH_BOUNDS_Y)"

definition ball_free :: "ball \<Rightarrow> ball" where
  "ball_free b =
     (let bnd_x = bounds_x (ball_vpos b);
          bnd_y = bounds_y (ball_vpos b);
          (px, vx) = ball_physics (fst (ball_vpos b)) (fst (ball_vel b)) bnd_x;
          (py, vy) = ball_physics (snd (ball_vpos b)) (snd (ball_vel b)) bnd_y
      in b\<lparr>ball_vpos := (px, py), ball_vel := (vx, vy)\<rparr>)"

definition ball_dribble :: "game \<Rightarrow> nat \<Rightarrow> game" where
  "ball_dribble g oi =
     (let b = ball g;
          ow = players g ! oi;
          new_x = avg (fst (ball_vpos b)) (fst (vpos ow) + DRIBBLE_DIST_X * sin8 (real_of_int (dir ow)));
          new_y = avg (snd (ball_vpos b)) (snd (vpos ow) - DRIBBLE_DIST_Y * cos8 (real_of_int (dir ow)))
      in if on_pitch new_x new_y
         then g\<lparr>ball := b\<lparr>ball_vpos := (new_x, new_y)\<rparr>\<rparr>
         else g\<lparr>players := (players g)[oi := ow\<lparr>timer := 60\<rparr>],
                ball := b\<lparr>ball_vel := vscale (angle_to_vec (real_of_int (dir ow))) 3,
                           ball_owner := None\<rparr>\<rparr>)"

definition ball_move :: "game \<Rightarrow> game" where
  "ball_move g =
     (let g1 = g\<lparr>ball := (ball g)\<lparr>ball_timer := ball_timer (ball g) - 1\<rparr>\<rparr>
      in case ball_owner (ball g1) of
           Some oi \<Rightarrow> ball_dribble g1 oi
         | None \<Rightarrow> g1\<lparr>ball := ball_free (ball g1)\<rparr>)"

text \<open>Lines 303 to 318: one iteration of the search for a player that acquires the ball.\<close>

definition can_acquire :: "game \<Rightarrow> nat \<Rightarrow> bool" where
  "can_acquire g i =
     ((case ball_owner (ball g) of None \<Rightarrow> True
        | Some oi \<Rightarrow> team (players g ! oi) \<noteq> team (players g ! i))
      \<and> collide (ball g) (players g ! i))"

definition acquire_step :: "game \<Rightarrow> nat \<Rightarrow> game" where
  "acquire_step g i =
     (if can_acquire g i
      then
        let ps = (case ball_owner (ball g) of None \<Rightarrow> players g
                  | Some oi \<Rightarrow> (players g)[oi := (players g ! oi)\<lparr>timer := 60\<rparr>]);
            tn = team (players g ! i)
        in g\<lparr>players := ps,
             teams := (teams g)[tn := (teams g ! tn)\<lparr>active_control_player := Some i\<rparr>],
             ball := (ball g)\<lparr>ball_timer := holdoff_timer (difficulty g), ball_owner := Some i\<rparr>\<rparr>
      else g)"

definition acquire :: "game \<Rightarrow> game" where
  "acquire g = foldl acquire_step g [0..<length (players g)]"

text \<open>Lines 320 to 344: the target of a kick and the decision to kick.\<close>

definition entities :: "game \<Rightarrow> entity list" where
  "entities g = map PlayerRef [0..<length (players g)] @ map GoalRef [0..<length (goals g)]"

definition targetable_players :: "game \<Rightarrow> player \<Rightarrow> entity list" where
  "targetable_players g ow =
     filter (\<lambda>e. ent_team g e = team ow \<and> targetable g e ow) (entities g)"

definition shoot_target :: "game \<Rightarrow> player \<Rightarrow> entity option" where
  "shoot_target g ow =
     (case targetable_players g ow of
        [] \<Rightarrow> None
      | e # es \<Rightarrow> Some (min_key (\<lambda>e. dist_key (vpos ow) (ent_vpos g e)) e es))"

text \<open>
  \<^verbatim>\<open>do_shoot\<close>, with the state of \<^verbatim>\<open>key_status\<close> after it. For a computer-controlled owner
  it is \<^verbatim>\<open>self.timer <= 0 and target and cost(target.vpos, team) < cost(owner.vpos, team)\<close>,
  where \<^verbatim>\<open>self\<close> is the ball.
\<close>

definition do_shoot ::
  "(key \<Rightarrow> bool) \<Rightarrow> game \<Rightarrow> player \<Rightarrow> entity option \<Rightarrow> py_error + (bool \<times> (key \<rightharpoonup> bool))" where
  "do_shoot keyboard g ow target =
     (case controls (teams g ! team ow) of
        Some player_num \<Rightarrow> Inr (key_just_pressed keyboard (key_status g) (key_shoot player_num))
      | None \<Rightarrow>
          if ball_timer (ball g) \<le> 0 then
            (case target of
               None \<Rightarrow> Inr (False, key_status g)
             | Some t \<Rightarrow>
                 (case cost g (ent_vpos g t) (team ow) 0 of
                    Inl e \<Rightarrow> Inl e
                  | Inr ct \<Rightarrow>
                      (case cost g (vpos ow) (team ow) 0 of
                         Inl e \<Rightarrow> Inl e
                       | Inr co \<Rightarrow>
                           (case tuple_lt ct co of
                              Inl e \<Rightarrow> Inl e
                            | Inr r \<Rightarrow> Inr (r, key_status g)))))
          else Inr (False, key_status g))"

text \<open>Lines 346 to 400: the kick. \<^verbatim>\<open>aim\<close> is the loop refining the direction.\<close>

fun aim :: "nat \<Rightarrow> Vector2 \<Rightarrow> Vector2 \<Rightarrow> Vector2 \<Rightarrow> real \<Rightarrow> Vector2 \<Rightarrow> Vector2" where
  "aim 0 target_pos facing ball_pos r v = v"
| "aim (Suc n) target_pos facing ball_pos r v =
     (let t = vadd target_pos (vscale facing r);
          (v', len) = safe_normalise (vsub t ball_pos)
      in aim n target_pos facing ball_pos
           (HUMAN_PLAYER_WITHOUT_BALL_SPEED * real_of_int (steps len)) v')"

definition is_player :: "entity \<Rightarrow> bool" where
  "is_player e = (case e of PlayerRef i \<Rightarrow> True | GoalRef i \<Rightarrow> False)"

definition kick :: "game \<Rightarrow> nat \<Rightarrow> entity option \<Rightarrow> py_error + game" where
  "kick g oi target =
     (let ow = players g ! oi;
          b = ball g;
          facing = angle_to_vec (real_of_int (dir ow));
          aimed =
            (case target of
               Some t \<Rightarrow>
                 Inr (aim (if human (teams g ! team ow) \<and> is_player t then 8 else 1)
                          (ent_vpos g t) facing (ball_vpos b) 0 (0, 0), t)
             | None \<Rightarrow>
                 (case py_min (\<lambda>i. dist_key (vadd (ball_vpos b) (vscale facing 250)) (vpos (players g ! i)))
                         (filter (\<lambda>i. team (players g ! i) = team ow) [0..<length (players g)]) of
                    Inl e \<Rightarrow> Inl e
                  | Inr i \<Rightarrow> Inr (facing, PlayerRef i)))
      in case aimed of
           Inl e \<Rightarrow> Inl e
         | Inr (v, t) \<Rightarrow>
             let ts = (case t of
                         PlayerRef i \<Rightarrow>
                           (teams g)[team ow := (teams g ! team ow)\<lparr>active_control_player := Some i\<rparr>]
                       | GoalRef i \<Rightarrow> teams g)
             in Inr (g\<lparr>teams := ts,
                       players := (players g)[oi := ow\<lparr>timer := 10\<rparr>],
                       ball := b\<lparr>ball_vel := vscale v KICK_STRENGTH, ball_owner := None\<rparr>\<rparr>))"

definition shoot :: "(key \<Rightarrow> bool) \<Rightarrow> game \<Rightarrow> py_error + game" where
  "shoot keyboard g =
     (case ball_owner (ball g) of
        None \<Rightarrow> Inr g
      | Some oi \<Rightarrow>
          let ow = players g ! oi;
              target = shoot_target g ow;
              g1 = (case target of
                      Some t \<Rightarrow> g\<lparr>debug_shoot_target := Some (ent_vpos g t)\<rparr>
                    | None \<Rightarrow> g)
          in case do_shoot keyboard g1 ow target of
               Inl e \<Rightarrow> Inl e
             | Inr (fire, ks) \<Rightarrow>
                 if fire then kick (g1\<lparr>key_status := ks\<rparr>) oi target
                 else Inr (g1\<lparr>key_status := ks\<rparr>))"

definition Ball_update :: "(key \<Rightarrow> bool) \<Rightarrow> game \<Rightarrow> py_error + game" where
  "Ball_update keyboard g = shoot keyboard (acquire (ball_move g))"

text \<open>
  The owners the ball has during one \<^verbatim>\<open>Ball.update\<close>, in order: before the call, after the
  dribble or physics part, after each iteration of the acquisition loop, and after the
  kick part (when it raises nothing).
\<close>

fun acquire_owners :: "game \<Rightarrow> nat list \<Rightarrow> nat option list" where
  "acquire_owners g [] = []"
| "acquire_owners g (i # rest) =
     (let g' = acquire_step g i in ball_owner (ball g') # acquire_owners g' rest)"

definition owner_trace :: "(key \<Rightarrow> bool) \<Rightarrow> game \<Rightarrow> nat option list" where
  "owner_trace keyboard g =
     ball_owner (ball g) # ball_owner (ball (ball_move g))
       # acquire_owners (ball_move g) [0..<length (players (ball_move g))]
       @ (case Ball_update keyboard g of Inl e \<Rightarrow> [] | Inr g' \<Rightarrow> [ball_owner (ball g')])"

text \<open>A change of owner from one player to another is between players of different teams.\<close>

definition owner_step_ok :: "player list \<Rightarrow> nat option \<Rightarrow> nat option \<Rightarrow> bool" where
  "owner_step_ok ps a b =
     (case a of
        None \<Rightarrow> True
      | Some i \<Rightarrow> (case b of None \<Rightarrow> True | Some j \<Rightarrow> i = j \<or> team (ps ! i) \<noteq> team (ps ! j)))"

subsection \<open>Game.reset and Game.update\<close>

text \<open>
  \<^verbatim>\<open>Player.__init__(x, y, team)\<close>: the player stands at its kickoff position, half of
  \<^verbatim>\<open>y\<close> plus 550, minus 400 for team 1; \<^verbatim>\<open>(x, y)\<close> is its home. \<^verbatim>\<open>peer\<close> is set by
  \<^verbatim>\<open>Game.reset\<close>, \<^verbatim>\<open>mark\<close> and \<^verbatim>\<open>lead\<close> by \<^verbatim>\<open>Game.update\<close>.
\<close>

definition new_player :: "real \<Rightarrow> real \<Rightarrow> nat \<Rightarrow> player" where
  "new_player px py tm =
     \<lparr>vpos = (px, py / 2 + 550 - real tm * 400), home = (px, py), team = tm,
      dir = 0, timer = 0, peer = 0, mark = None, lead = None\<rparr>"

text \<open>
  The roster: for each start position a player of team 0 and its mirror image of team 1,
  each coordinate moved by \<^verbatim>\<open>random.randint(-32, 32)\<close>. \<^verbatim>\<open>rnd k\<close> is the k-th draw.
\<close>

fun make_players :: "(int \<times> int) list \<Rightarrow> (nat \<Rightarrow> int) \<Rightarrow> nat \<Rightarrow> player list" where
  "make_players [] rnd k = []"
| "make_players ((px, py) # rest) rnd k =
     new_player (real_of_int (px + rnd k)) (real_of_int (py + rnd (k + 1))) 0
     # new_player (real_of_int (1000 - px + rnd (k + 2))) (real_of_int (1400 - py + rnd (k + 3))) 1
     # make_players rest rnd (k + 4)"

definition set_peers :: "player list \<Rightarrow> player list" where
  "set_peers ps = map (\<lambda>(i, p). p\<lparr>peer := length ps - 1 - i\<rparr>) (zip [0..<length ps] ps)"

definition new_goal :: "nat \<Rightarrow> goal" where
  "new_goal tm = \<lparr>goal_vpos = (HALF_LEVEL_W, if tm = 0 then 0 else LEVEL_H), goal_team = tm\<rparr>"

definition new_ball :: ball where
  "new_ball = \<lparr>ball_vpos = (HALF_LEVEL_W, HALF_LEVEL_H), ball_vel = (0, 0),
               ball_owner = None, ball_timer = 0\<rparr>"

definition reset :: "(nat \<Rightarrow> int) \<Rightarrow> game \<Rightarrow> game" where
  "reset rnd g =
     (let ps = set_peers (make_players PLAYER_START_POS rnd 0);
          ts0 = (teams g)[0 := (teams g ! 0)\<lparr>active_control_player := Some 0\<rparr>];
          ts1 = ts0[1 := (ts0 ! 1)\<lparr>active_control_player := Some 1\<rparr>];
          other_team = (if scoring_team g = 0 then 1 else 0);
          ps1 = ps[other_team := (ps ! other_team)
                     \<lparr>vpos := (HALF_LEVEL_W - 30 + real other_team * 60, HALF_LEVEL_H)\<rparr>]
      in g\<lparr>players := ps1, goals := map new_goal [0..<2], teams := ts1,
           kickoff_player := Some other_team, ball := new_ball,
           camera_focus := ball_vpos new_ball, debug_shoot_target := None\<rparr>)"

text \<open>Lines 768 to 779 of \<^verbatim>\<open>Game.update\<close>: the score timer, the reset, the goal.\<close>

definition score_stage :: "(nat \<Rightarrow> int) \<Rightarrow> game \<Rightarrow> game" where
  "score_stage rnd g =
     (let g1 = g\<lparr>score_timer := score_timer g - 1\<rparr>
      in if score_timer g1 = 0 then reset rnd g1
         else if score_timer g1 < 0 \<and> \<bar>snd (ball_vpos (ball g1)) - HALF_LEVEL_H\<bar> > HALF_PITCH_H
         then
           let st = (if snd (ball_vpos (ball g1)) < HALF_LEVEL_H then 0 else 1)
           in g1\<lparr>scoring_team := st,
                 teams := (teams g1)[st := (teams g1 ! st)\<lparr>score := score (teams g1 ! st) + 1\<rparr>],
                 score_timer := 60\<rparr>
         else g1)"

text \<open>Lines 781 to 840 of \<^verbatim>\<open>Game.update\<close>: marks and leads.\<close>

definition reset_roles :: "game \<Rightarrow> game" where
  "reset_roles g =
     g\<lparr>players := map (\<lambda>b. b\<lparr>mark := Some (PlayerRef (peer b)), lead := None\<rparr>) (players g),
       debug_shoot_target := None\<rparr>"

definition assign_goalie :: "game \<Rightarrow> nat \<Rightarrow> py_error + game" where
  "assign_goalie g oi =
     (let ow = players g ! oi;
          owners_target_goal = goals g ! team ow
      in case py_min (\<lambda>i. dist_key (goal_vpos owners_target_goal) (vpos (players g ! i)))
                (filter (\<lambda>i. team (players g ! i) \<noteq> team ow) [0..<length (players g)]) of
           Inl e \<Rightarrow> Inl e
         | Inr nearest \<Rightarrow>
             let ps1 = (players g)[peer ow := (players g ! peer ow)\<lparr>mark := mark (players g ! nearest)\<rparr>];
                 ps2 = ps1[nearest := (ps1 ! nearest)\<lparr>mark := Some (GoalRef (team ow))\<rparr>]
             in Inr (g\<lparr>players := ps2\<rparr>))"

definition marks_goal :: "player \<Rightarrow> bool" where
  "marks_goal p = (case mark p of Some (GoalRef i) \<Rightarrow> True | _ \<Rightarrow> False)"

text \<open>
  The candidate chasers \<^verbatim>\<open>l\<close>, sorted by their distance from the owner. The source computes
  \<^verbatim>\<open>other_team = 1 if team == 0 else 1\<close>.
\<close>

definition chaser_ok :: "game \<Rightarrow> nat \<Rightarrow> nat \<Rightarrow> bool" where
  "chaser_ok g tm i =
     (let p = players g ! i;
          other_team = (if tm = 0 then 1 else 1)
      in team p \<noteq> tm \<and> timer p \<le> 0
         \<and> (\<not> human (teams g ! other_team)
            \<or> Some i \<noteq> active_control_player (teams g ! other_team))
         \<and> \<not> marks_goal p)"

definition chasers :: "game \<Rightarrow> nat \<Rightarrow> nat list" where
  "chasers g oi =
     (let ow = players g ! oi
      in sort_key (\<lambda>i. dist_key (vpos ow) (vpos (players g ! i)))
           (filter (chaser_ok g (team ow)) [0..<length (players g)]))"

definition upfield :: "game \<Rightarrow> nat \<Rightarrow> nat \<Rightarrow> bool" where
  "upfield g oi i =
     (let ow = players g ! oi
      in if team ow = 0 then snd (vpos (players g ! i)) > snd (vpos ow)
         else snd (vpos (players g ! i)) < snd (vpos ow))"

text \<open>\<^verbatim>\<open>[s for t in zip(a + NONE2, b + NONE2) for s in t if s]\<close>\<close>

definition zipped :: "nat list \<Rightarrow> nat list \<Rightarrow> nat list" where
  "zipped a b =
     List.map_filter id
       (concat (map (\<lambda>(s, t). [s, t]) (zip (map Some a @ [None, None]) (map Some b @ [None, None]))))"

definition set_lead :: "game \<Rightarrow> nat \<Rightarrow> int \<Rightarrow> game" where
  "set_lead g i d = g\<lparr>players := (players g)[i := (players g ! i)\<lparr>lead := Some d\<rparr>]\<rparr>"

definition assign_leads :: "game \<Rightarrow> nat list \<Rightarrow> py_error + game" where
  "assign_leads g z =
     (case z of
        [] \<Rightarrow> Inl IndexError
      | z0 # rest \<Rightarrow>
          let g1 = set_lead g z0 LEAD_DISTANCE_1
          in if second_lead_enabled (difficulty g)
             then (case rest of
                     [] \<Rightarrow> Inl IndexError
                   | z1 # rest' \<Rightarrow> Inr (set_lead g1 z1 LEAD_DISTANCE_2))
             else Inr g1)"

definition assign_roles :: "game \<Rightarrow> nat \<Rightarrow> py_error + game" where
  "assign_roles g oi =
     (case (if goalie_enabled (difficulty g) then assign_goalie g oi else Inr g) of
        Inl e \<Rightarrow> Inl e
      | Inr g1 \<Rightarrow>
          let l = chasers g1 oi;
              a = filter (upfield g1 oi) l;
              b = filter (\<lambda>p. p \<notin> set a) l
          in case assign_leads g1 (zipped a b) of
               Inl e \<Rightarrow> Inl e
             | Inr g2 \<Rightarrow> Inr (g2\<lparr>kickoff_player := None\<rparr>))"

definition roles_stage :: "game \<Rightarrow> py_error + game" where
  "roles_stage g =
     (let g0 = reset_roles g
      in case ball_owner (ball g0) of
           None \<Rightarrow> Inr g0
         | Some oi \<Rightarrow> assign_roles g0 oi)"

subsection \<open>Concrete states\<close>

text \<open>
  A one-player match on the hardest difficulty: team 0 is played from the keyboard, team 1
  by the computer. The fourteen players stand on the centre line of the pitch's width
  (x = 500), which keeps every distance a difference of two y coordinates. Player 1
  (team 1) has the ball at its feet and faces down the pitch, towards the goal it attacks;
  its team-mate 3 stands 100 units ahead of it; every opponent is behind it.
\<close>

definition mk_player :: "real \<Rightarrow> nat \<Rightarrow> int \<Rightarrow> int \<Rightarrow> nat \<Rightarrow> player" where
  "mk_player py tm d t pr =
     \<lparr>vpos = (500, py), home = (500, py), team = tm, dir = d, timer = t, peer = pr,
      mark = Some (PlayerRef pr), lead = None\<rparr>"

definition column_players :: "player list" where
  "column_players =
     [mk_player 300 0 4 (-1) 13, mk_player 600 1 4 (-1) 12,
      mk_player 350 0 4 (-1) 11, mk_player 700 1 4 (-1) 10,
      mk_player 400 0 4 (-1) 9,  mk_player 550 1 4 (-1) 8,
      mk_player 450 0 4 (-1) 7,  mk_player 500 1 4 (-1) 6,
      mk_player 250 0 4 (-1) 5,  mk_player 200 1 4 (-1) 4,
      mk_player 150 0 4 (-1) 3,  mk_player 175 1 4 (-1) 2,
      mk_player 120 0 4 (-1) 1,  mk_player 100 1 4 (-1) 0]"

definition column_game :: game where
  "column_game =
     \<lparr>teams = [\<lparr>controls = Some 0, active_control_player = Some 0, score = 0\<rparr>,
               \<lparr>controls = None, active_control_player = Some 1, score = 0\<rparr>],
      difficulty = DIFFICULTY ! 2,
      score_timer = -100,
      scoring_team = 1,
      players = column_players,
      goals = map new_goal [0..<2],
      kickoff_player = None,
      ball = \<lparr>ball_vpos = (500, 616), ball_vel = (0, 0), ball_owner = Some 1, ball_timer = 30\<rparr>,
      camera_focus = (500, 616),
      debug_shoot_target = None,
      key_status = Map.empty\<rparr>"

definition no_keys :: "key \<Rightarrow> bool" where
  "no_keys k = False"


text \<open>
  The same match on the easiest difficulty, with player 0 (team 0, played from the keyboard)
  facing up the pitch 30 units in front of player 1, within reach of the ball that player 1
  dribbles. No key is down.
\<close>

definition tackle_game :: game where
  "tackle_game =
     column_game\<lparr>difficulty := DIFFICULTY ! 0,
                 players := column_players[0 := mk_player 630 0 0 (-1) 13]\<rparr>"

text \<open>\<^verbatim>\<open>tackle_game\<close> after the acquisition loop: player 0 has taken the ball from player 1.\<close>

definition tackled :: game where
  "tackled = tackle_game\<lparr>
     players := (players tackle_game)[1 := mk_player 600 1 4 60 12],
     teams := [\<lparr>controls = Some 0, active_control_player = Some 0, score = 0\<rparr>,
               \<lparr>controls = None, active_control_player = Some 1, score = 0\<rparr>],
     ball := \<lparr>ball_vpos = (500, 616), ball_vel = (0, 0), ball_owner = Some 0, ball_timer = 120\<rparr>\<rparr>"

text \<open>
  The match 61 frames after the tackle, if nobody has moved and no key was pressed:
  player 0 still has the ball, now at its feet; the timer of every player has gone down by
  61 (player 1's from 60 to -1) and the ball's from 120 to 60.
\<close>

definition retake_game :: game where
  "retake_game =
     tackled\<lparr>players := map (\<lambda>p. p\<lparr>timer := timer p - 61\<rparr>) (players tackled),
             ball := (ball tackled)\<lparr>ball_vpos := (500, 614), ball_timer := 60\<rparr>,
             key_status := [Key_SPACE \<mapsto> False]\<rparr>"

text \<open>\<^verbatim>\<open>retake_game\<close> after the acquisition loop: player 1 has the ball again.\<close>

definition retaken :: game where
  "retaken = retake_game\<lparr>
     players := (players retake_game)[0 := mk_player 630 0 0 60 13],
     ball := \<lparr>ball_vpos = (500, 614), ball_vel = (0, 0), ball_owner = Some 1, ball_timer = 120\<rparr>\<rparr>"

text \<open>\<^verbatim>\<open>column_game\<close> with the ball's timer run out.\<close>

definition ready_game :: game where
  "ready_game = column_game\<lparr>ball := (ball column_game)\<lparr>ball_timer := 0\<rparr>\<rparr>"

text \<open>\<^verbatim>\<open>ready_game\<close> after the kick: player 1 has passed to player 3.\<close>

definition kicked_game :: game where
  "kicked_game =
     ready_game\<lparr>teams := [\<lparr>controls = Some 0, active_control_player = Some 0, score = 0\<rparr>,
                           \<lparr>controls = None, active_control_player = Some 3, score = 0\<rparr>],
                 players := column_players[1 := mk_player 600 1 4 10 12],
                 ball := \<lparr>ball_vpos = (500, 616), ball_vel = (0, 11.5), ball_owner = None,
                          ball_timer = 0\<rparr>,
                 debug_shoot_target := Some (500, 700)\<rparr>"

text \<open>The ball in the net of the bottom goal, no goal sequence in progress.\<close>

definition goal_game :: game where
  "goal_game =
     column_game\<lparr>ball := \<lparr>ball_vpos = (500, 1330), ball_vel = (0, 4), ball_owner = None,
                          ball_timer = -40\<rparr>\<rparr>"

text \<open>A random source that always draws 0.\<close>

definition no_jitter :: "nat \<Rightarrow> int" where
  "no_jitter k = 0"

text \<open>
  \<^verbatim>\<open>column_game\<close> with the hold-off timer of every player of team 0 at 5: none of them may
  take the ball from player 1 yet.
\<close>

definition stalled_game :: game where
  "stalled_game =
     column_game\<lparr>players := map (\<lambda>p. if team p = 0 then p\<lparr>timer := 5\<rparr> else p) column_players\<rparr>"






subsection \<open>Auxiliary notions of the properties\<close>

text \<open>
  \<^verbatim>\<open>nearest\<close> of \<^verbatim>\<open>Game.update\<close>: the player of the other team nearest to the goal the owner
  attacks, who is made to mark that goal.
\<close>

definition goalie :: "game \<Rightarrow> nat \<Rightarrow> py_error + nat" where
  "goalie g oi =
     py_min (\<lambda>i. dist_key (goal_vpos (goals g ! team (players g ! oi))) (vpos (players g ! i)))
       (filter (\<lambda>i. team (players g ! i) \<noteq> team (players g ! oi)) [0..<length (players g)])"


text \<open>
  The player of roster slot \<open>i\<close> in kickoff formation: slot \<open>2k\<close> is team 0's player of start
  position \<open>k\<close>, slot \<open>2k + 1\<close> its mirror image of team 1, each home coordinate moved by a
  draw of the random source; the player stands at its kickoff position.
\<close>

definition kickoff_formation :: "(nat \<Rightarrow> int) \<Rightarrow> nat \<Rightarrow> player" where
  "kickoff_formation rnd i =
     (let k = i div 2;
          tm = i mod 2;
          (sx, sy) = PLAYER_START_POS ! k;
          hx = (if tm = 0 then sx + rnd (4 * k) else 1000 - sx + rnd (4 * k + 2));
          hy = (if tm = 0 then sy + rnd (4 * k + 1) else 1400 - sy + rnd (4 * k + 3))
      in \<lparr>vpos = (real_of_int hx, real_of_int hy / 2 + 550 - 400 * real tm),
          home = (real_of_int hx, real_of_int hy), team = tm, dir = 0, timer = 0,
          peer = 13 - i, mark = None, lead = None\<rparr>)"

text \<open>\<^verbatim>\<open>other_team\<close> of \<^verbatim>\<open>Game.reset\<close>: the team that did not score last, which kicks off.\<close>

definition other_team :: "game \<Rightarrow> nat" where
  "other_team g = (if scoring_team g = 0 then 1 else 0)"


text \<open>The state with another value of the ball's timer.\<close>

definition with_ball_timer :: "int \<Rightarrow> game \<Rightarrow> game" where
  "with_ball_timer t g = g\<lparr>ball := (ball g)\<lparr>ball_timer := t\<rparr>\<rparr>"

text \<open>Player \<open>i\<close> owns the ball, or has lost it and had its timer set to 60.\<close>

definition lost_or_owner :: "nat \<Rightarrow> game \<Rightarrow> bool" where
  "lost_or_owner i g =
     (i < length (players g) \<and> (ball_owner (ball g) = Some i \<or> timer (players g ! i) = 60))"

section \<open>Properties\<close>

subsection \<open>Vectors\<close>

lemma vlength_nonneg [simp]: "0 \<le> vlength a"
  by (simp add: vlength_def)

lemma vlength_axis_y [simp]: "vlength (0, b) = \<bar>b\<bar>"
  by (simp add: vlength_def)

lemma vlength_axis_x [simp]: "vlength (a, 0) = \<bar>a\<bar>"
  by (simp add: vlength_def)

lemma vlength_zero_iff: "vlength a = 0 \<longleftrightarrow> a = (0, 0)"
proof -
  have "fst a * fst a + snd a * snd a = 0 \<longleftrightarrow> fst a = 0 \<and> snd a = 0"
    by (simp add: sum_squares_eq_zero_iff)
  then show ?thesis by (cases a) (simp add: vlength_def)
qed

lemma vlength_vsub_zero_iff: "vlength (vsub a b) = 0 \<longleftrightarrow> a = b"
  by (cases a, cases b) (simp add: vlength_zero_iff vsub_def)


lemma vlength_less_iff:
  "0 \<le> c \<Longrightarrow> vlength a < c \<longleftrightarrow> fst a * fst a + snd a * snd a < c * c"
proof -
  assume c: "0 \<le> c"
  then have "sqrt (c * c) = c" by simp
  then have "vlength a < c \<longleftrightarrow> sqrt (fst a * fst a + snd a * snd a) < sqrt (c * c)"
    by (simp add: vlength_def)
  then show ?thesis by (simp only: real_sqrt_less_iff)
qed

lemma sin8_0 [simp]: "sin8 0 = 0" by (simp add: sin8_def)
lemma sin8_2 [simp]: "sin8 2 = 1" by (simp add: sin8_def)
lemma sin8_4 [simp]: "sin8 4 = 0" by (simp add: sin8_def)
lemma sin8_6 [simp]: "sin8 6 = -1"
proof -
  have "6 * pi / 4 = 3 / 2 * pi" by simp
  then show ?thesis unfolding sin8_def by (simp only: sin_3over2_pi)
qed

lemma angle_to_vec_0: "angle_to_vec 0 = (0, -1)" by (simp add: angle_to_vec_def cos8_def)
lemma angle_to_vec_4: "angle_to_vec 4 = (0, 1)" by (simp add: angle_to_vec_def cos8_def)

lemmas column_defs = column_game_def column_players_def mk_player_def

subsection \<open>cost\<close>

lemma cost_defined:
  assumes "pos \<noteq> own_goal_pos tm"
  shows "cost g pos tm handicap =
     Inr (3500 / dist_key (own_goal_pos tm) pos
          + (\<Sum>p\<leftarrow>filter (\<lambda>p. team p \<noteq> tm) (players g). 4000 / max 24 (dist_key pos (vpos p)))
          + ((fst pos - 500)\<^sup>2 / 200 - snd pos * (4 * real tm - 2))
          + handicap, pos)"
proof -
  have "vlength (vsub pos (own_goal_pos tm)) \<noteq> 0"
    using assms by (simp add: vlength_vsub_zero_iff)
  then show ?thesis
    by (simp add: cost_def dist_key_def Let_def geom)
qed

lemma cost_at_own_goal: "cost g (own_goal_pos tm) tm handicap = Inl ZeroDivisionError"
  by (simp add: cost_def vlength_vsub_zero_iff)

lemma repulsion_bounds:
  "0 < 4000 / max 24 (dist_key pos q) \<and> 4000 / max 24 (dist_key pos q) \<le> 4000 / 24"
proof -
  have "(24::real) \<le> max 24 (dist_key pos q)" by simp
  then show ?thesis by (simp add: field_simps max_def)
qed

text \<open>
  C2 (amended). For every position other than the entrance of the own goal, every team and
  every handicap, \<^verbatim>\<open>cost\<close> returns the pair of a number and the position; the number is
  3500 divided by the distance of the position from the entrance of the own goal
  ((500, 78) for team 1, (500, 1322) otherwise), plus the sum over the players of the
  other team of 4000 / max(24, distance of the player from the position), plus
  the square of (x - 500) divided by 200, minus y * (4 * team - 2), plus the handicap. The divisor of each term
  of the sum is at least 24, so each term is at most 4000 / 24.
\<close>

theorem cost_formula:
  "(pos \<noteq> own_goal_pos tm \<longrightarrow>
      cost g pos tm handicap =
        Inr (3500 / dist_key (own_goal_pos tm) pos
             + (\<Sum>p\<leftarrow>filter (\<lambda>p. team p \<noteq> tm) (players g). 4000 / max 24 (dist_key pos (vpos p)))
             + ((fst pos - 500)\<^sup>2 / 200 - snd pos * (4 * real tm - 2))
             + handicap, pos))
   \<and> own_goal_pos tm = (500, if tm = 1 then 78 else 1322)
   \<and> (\<forall>q. 24 \<le> max 24 (dist_key pos q) \<and> 4000 / max 24 (dist_key pos q) \<le> 4000 / 24)"
  using cost_defined[of pos tm g handicap] repulsion_bounds[of pos]
  by (simp add: own_goal_pos_def geom)

theorem cost_formula_witness:
  "(500, 700) \<noteq> own_goal_pos 1
   \<and> cost column_game (500, 700) 1 0 = Inr (- 8253676268 / 6250167, (500, 700))"
proof -
  have a: "(500, 700) \<noteq> own_goal_pos 1" by (simp add: own_goal_pos_def geom)
  from cost_formula[of "(500, 700)" 1 column_game 0] a
  have "cost column_game (500, 700) 1 0 =
        Inr (3500 / dist_key (own_goal_pos 1) (500, 700)
             + (\<Sum>p\<leftarrow>filter (\<lambda>p. team p \<noteq> 1) (players column_game).
                   4000 / max 24 (dist_key (500, 700) (vpos p)))
             + ((fst (500::real, 700::real) - 500)\<^sup>2 / 200 - snd (500::real, 700::real) * (4 * real 1 - 2))
             + 0, (500, 700))"
    by blast
  then have "cost column_game (500, 700) 1 0 = Inr (- 8253676268 / 6250167, (500, 700))"
    by (simp add: dist_key_def own_goal_pos_def geom vec column_defs)
  with a show ?thesis by simp
qed

text \<open>
  C2 as stated, for every position, fails at the entrance of the own goal: there the call
  returns no number, it raises \<^verbatim>\<open>ZeroDivisionError\<close>.
\<close>

theorem cost_total_counterexample:
  "cost column_game (500, 1322) 0 0 = Inl ZeroDivisionError"
  by (simp add: cost_def own_goal_pos_def geom vec)

text \<open>
  C9. The own-goal term divides by the distance itself. At the entrance of the own goal,
  (500, 78) for team 1 and (500, 1322) for team 0, the call raises \<^verbatim>\<open>ZeroDivisionError\<close>;
  at every other position it returns. The divisor of the opponent term is never 0.
\<close>

theorem cost_own_goal_unguarded:
  "own_goal_pos 1 = (500, 78) \<and> own_goal_pos 0 = (500, 1322)
   \<and> cost g (own_goal_pos tm) tm handicap = Inl ZeroDivisionError
   \<and> (pos \<noteq> own_goal_pos tm \<longrightarrow> (\<exists>r. cost g pos tm handicap = Inr (r, pos)))
   \<and> (\<forall>q. 0 < max 24 (dist_key pos q))"
proof -
  have "\<forall>q. 0 < max 24 (dist_key pos q)" by (simp add: max_def)
  moreover have "pos \<noteq> own_goal_pos tm \<longrightarrow> (\<exists>r. cost g pos tm handicap = Inr (r, pos))"
    using cost_defined[of pos tm g handicap] by blast
  ultimately show ?thesis
    using cost_at_own_goal[of g tm handicap] by (simp add: own_goal_pos_def geom)
qed

theorem cost_own_goal_unguarded_witness:
  "cost column_game (500, 78) 1 0 = Inl ZeroDivisionError
   \<and> (500, 600) \<noteq> own_goal_pos 1
   \<and> (\<exists>r. cost column_game (500, 600) 1 0 = Inr (r, (500, 600)))"
proof -
  have a: "(500, 600) \<noteq> own_goal_pos 1" by (simp add: own_goal_pos_def geom)
  from cost_own_goal_unguarded[of column_game 1 0 "(500, 600)"]
  have "own_goal_pos 1 = (500, 78)"
    and "cost column_game (own_goal_pos 1) 1 0 = Inl ZeroDivisionError"
    and "(500, 600) \<noteq> own_goal_pos 1 \<longrightarrow> (\<exists>r. cost column_game (500, 600) 1 0 = Inr (r, (500, 600)))"
    by blast+
  with a show ?thesis by metis
qed

subsection \<open>targetable\<close>

lemma safe_normalise_snd [simp]: "snd (safe_normalise v) = vlength v"
  by (simp add: safe_normalise_def Let_def)

lemma safe_normalise_zero: "vlength v = 0 \<Longrightarrow> fst (safe_normalise v) = (0, 0)"
  by (simp add: safe_normalise_def Let_def)

lemma safe_normalise_unit:
  "vlength v \<noteq> 0 \<Longrightarrow> fst (safe_normalise v) = (fst v / vlength v, snd v / vlength v)"
  by (simp add: safe_normalise_def Let_def)

lemma lane_blocker_iff:
  "lane_blocker v0 d0 tt sp p \<longleftrightarrow>
     team p \<noteq> tt \<and> dist_key sp (vpos p) < d0
     \<and> vdot v0 (fst (safe_normalise (vsub (vpos p) sp))) > 0.8"
proof (cases "vlength (vsub (vpos p) sp) = 0")
  case True
  then show ?thesis
    by (simp add: lane_blocker_def split_beta dist_key_def safe_normalise_zero vdot_def)
next
  case False
  moreover have "0 \<le> vlength (vsub (vpos p) sp)" by simp
  ultimately have "0 < vlength (vsub (vpos p) sp)" by linarith
  then show ?thesis
    by (auto simp add: lane_blocker_def split_beta dist_key_def)
qed

lemma targetable_iff:
  "targetable g target source \<longleftrightarrow>
     ent_team g target = team source
     \<and> 0 < dist_key (vpos source) (ent_vpos g target)
     \<and> dist_key (vpos source) (ent_vpos g target) < 300
     \<and> vdot (fst (safe_normalise (vsub (ent_vpos g target) (vpos source))))
            (angle_to_vec (real_of_int (dir source))) > 0.8
     \<and> (\<not> human (teams g ! team source) \<longrightarrow>
          (\<forall>p\<in>set (players g).
             \<not> (team p \<noteq> ent_team g target
                \<and> dist_key (vpos source) (vpos p) < dist_key (vpos source) (ent_vpos g target)
                \<and> vdot (fst (safe_normalise (vsub (ent_vpos g target) (vpos source))))
                       (fst (safe_normalise (vsub (vpos p) (vpos source)))) > 0.8)))"
  by (auto simp add: targetable_def split_beta list_ex_iff lane_blocker_iff dist_key_def)

text \<open>
  C6. \<^verbatim>\<open>targetable(target, source)\<close> is false when the two are of different teams. When it
  is true, the distance from source to target is positive and below 300, the unit vector
  from source to target has a dot product above 0.8 with the source's facing vector, and,
  when the source's team is computer-controlled, no player of the other team is nearer to
  the source than the target with a dot product above 0.8 between its direction and the
  target's. The unit vector of a non-zero vector is the vector divided by its length.
\<close>

theorem targetable_sound:
  "(ent_team g target \<noteq> team source \<longrightarrow> \<not> targetable g target source)
   \<and> (targetable g target source \<longrightarrow>
        0 < dist_key (vpos source) (ent_vpos g target)
        \<and> dist_key (vpos source) (ent_vpos g target) < 300
        \<and> vdot (fst (safe_normalise (vsub (ent_vpos g target) (vpos source))))
               (angle_to_vec (real_of_int (dir source))) > 0.8
        \<and> (\<not> human (teams g ! team source) \<longrightarrow>
             (\<forall>p\<in>set (players g).
                team p \<noteq> team source
                \<and> dist_key (vpos source) (vpos p) < dist_key (vpos source) (ent_vpos g target)
                \<longrightarrow> vdot (fst (safe_normalise (vsub (ent_vpos g target) (vpos source))))
                         (fst (safe_normalise (vsub (vpos p) (vpos source)))) \<le> 0.8)))
   \<and> (\<forall>v. vlength v \<noteq> 0 \<longrightarrow> fst (safe_normalise v) = (fst v / vlength v, snd v / vlength v))"
proof -
  have 1: "ent_team g target \<noteq> team source \<longrightarrow> \<not> targetable g target source"
    by (simp add: targetable_iff)
  have 2: "targetable g target source \<longrightarrow>
        0 < dist_key (vpos source) (ent_vpos g target)
        \<and> dist_key (vpos source) (ent_vpos g target) < 300
        \<and> vdot (fst (safe_normalise (vsub (ent_vpos g target) (vpos source))))
               (angle_to_vec (real_of_int (dir source))) > 0.8
        \<and> (\<not> human (teams g ! team source) \<longrightarrow>
             (\<forall>p\<in>set (players g).
                team p \<noteq> team source
                \<and> dist_key (vpos source) (vpos p) < dist_key (vpos source) (ent_vpos g target)
                \<longrightarrow> vdot (fst (safe_normalise (vsub (ent_vpos g target) (vpos source))))
                         (fst (safe_normalise (vsub (vpos p) (vpos source)))) \<le> 0.8))"
    unfolding targetable_iff by (auto simp: not_less)
  from 1 2 show ?thesis by (simp add: safe_normalise_unit)
qed

lemma column_targetable_7_1: "targetable column_game (PlayerRef 1) (players column_game ! 7)"
  by (simp add: targetable_def lane_blocker_def safe_normalise_def ent_vpos_def ent_team_def human_def
       column_defs vec angle_to_vec_4)

theorem targetable_sound_witness:
  "ent_team column_game (PlayerRef 0) \<noteq> team (players column_game ! 7)
   \<and> \<not> targetable column_game (PlayerRef 0) (players column_game ! 7)
   \<and> targetable column_game (PlayerRef 1) (players column_game ! 7)
   \<and> dist_key (vpos (players column_game ! 7)) (ent_vpos column_game (PlayerRef 1)) = 100
   \<and> \<not> human (teams column_game ! team (players column_game ! 7))
   \<and> players column_game ! 6 \<in> set (players column_game)
   \<and> team (players column_game ! 6) \<noteq> team (players column_game ! 7)
   \<and> dist_key (vpos (players column_game ! 7)) (vpos (players column_game ! 6)) = 50
   \<and> vdot (fst (safe_normalise (vsub (ent_vpos column_game (PlayerRef 1)) (vpos (players column_game ! 7)))))
           (fst (safe_normalise (vsub (vpos (players column_game ! 6)) (vpos (players column_game ! 7)))))
        \<le> 0.8"
proof -
  let ?s = "players column_game ! 7"
  have a: "ent_team column_game (PlayerRef 0) \<noteq> team ?s"
    by (simp add: ent_team_def column_defs)
  have b: "\<not> human (teams column_game ! team ?s)"
    by (simp add: human_def column_defs)
  have c: "dist_key (vpos ?s) (ent_vpos column_game (PlayerRef 1)) = 100"
    by (simp add: dist_key_def ent_vpos_def column_defs vec)
  have d: "players column_game ! 6 \<in> set (players column_game)"
    by (simp add: column_defs)
  have e: "team (players column_game ! 6) \<noteq> team ?s"
    by (simp add: column_defs)
  have f: "dist_key (vpos ?s) (vpos (players column_game ! 6)) = 50"
    by (simp add: dist_key_def column_defs vec)
  note t = targetable_sound[of column_game _ ?s]
  from t[of "PlayerRef 0"] a
  have g: "\<not> targetable column_game (PlayerRef 0) ?s" by blast
  from t[of "PlayerRef 1"] column_targetable_7_1 b
  have "\<forall>p\<in>set (players column_game).
          team p \<noteq> team ?s
          \<and> dist_key (vpos ?s) (vpos p) < dist_key (vpos ?s) (ent_vpos column_game (PlayerRef 1))
          \<longrightarrow> vdot (fst (safe_normalise (vsub (ent_vpos column_game (PlayerRef 1)) (vpos ?s))))
                   (fst (safe_normalise (vsub (vpos p) (vpos ?s)))) \<le> 0.8"
    by blast
  with d e f c
  have h: "vdot (fst (safe_normalise (vsub (ent_vpos column_game (PlayerRef 1)) (vpos ?s))))
                (fst (safe_normalise (vsub (vpos (players column_game ! 6)) (vpos ?s)))) \<le> 0.8"
    by simp
  from a b c d e f g h column_targetable_7_1 show ?thesis by blast
qed

subsection \<open>Free ball physics\<close>


lemma acquire_none:
  "\<forall>i\<in>set ix. \<not> can_acquire g i \<Longrightarrow> foldl acquire_step g ix = g"
  by (induction ix) (simp_all add: acquire_step_def)


lemma ball_free_owner [simp]: "ball_owner (ball_free b) = ball_owner b"
  by (simp add: ball_free_def split_beta Let_def)



subsection \<open>steps\<close>

lemma drag_sum_shift: "(\<Sum>i<Suc n. v * DRAG ^ i) = v + (\<Sum>i<n. (v * DRAG) * DRAG ^ i)"
  by (simp add: sum.lessThan_Suc_shift mult.assoc del: sum.lessThan_Suc)

text \<open>
  The loop started at distance \<open>d\<close>, count \<open>s\<close> and velocity \<open>v\<close> runs \<open>n\<close> times, where \<open>n\<close>
  is the first number of iterations after which the remaining distance is not positive
  or the velocity is at most 0.25.
\<close>

lemma steps_loop_exit:
  "\<exists>n. steps_loop d s v = s + int n
       \<and> (d - (\<Sum>i<n. v * DRAG ^ i) \<le> 0 \<or> v * DRAG ^ n \<le> 0.25)
       \<and> (\<forall>m<n. d - (\<Sum>i<m. v * DRAG ^ i) > 0 \<and> v * DRAG ^ m > 0.25)"
proof (induction d s v rule: steps_loop.induct)
  case (1 d s v)
  show ?case
  proof (cases "d > 0 \<and> v > 0.25")
    case False
    then have "steps_loop d s v = s + int 0" by (subst steps_loop.simps) auto
    moreover from False have "d - (\<Sum>i<0. v * DRAG ^ i) \<le> 0 \<or> v * DRAG ^ 0 \<le> 0.25" by auto
    ultimately show ?thesis by blast
  next
    case True
    from 1[OF True] obtain n where
      n1: "steps_loop (d - v) (s + 1) (v * DRAG) = s + 1 + int n" and
      n2: "d - v - (\<Sum>i<n. v * DRAG * DRAG ^ i) \<le> 0 \<or> v * DRAG * DRAG ^ n \<le> 0.25" and
      n3: "\<forall>m<n. d - v - (\<Sum>i<m. v * DRAG * DRAG ^ i) > 0 \<and> v * DRAG * DRAG ^ m > 0.25"
      by blast
    have a: "steps_loop d s v = s + int (Suc n)"
      using True n1 by (subst steps_loop.simps) simp
    have b: "d - (\<Sum>i<Suc n. v * DRAG ^ i) \<le> 0 \<or> v * DRAG ^ Suc n \<le> 0.25"
      using n2 unfolding drag_sum_shift by (simp add: algebra_simps)
    have c: "\<forall>m<Suc n. d - (\<Sum>i<m. v * DRAG ^ i) > 0 \<and> v * DRAG ^ m > 0.25"
    proof (intro allI impI)
      fix m assume m: "m < Suc n"
      show "d - (\<Sum>i<m. v * DRAG ^ i) > 0 \<and> v * DRAG ^ m > 0.25"
      proof (cases m)
        case 0
        then show ?thesis using True by simp
      next
        case (Suc k)
        then have "k < n" using m by simp
        with n3 have "d - v - (\<Sum>i<k. v * DRAG * DRAG ^ i) > 0 \<and> v * DRAG * DRAG ^ k > 0.25"
          by blast
        then show ?thesis unfolding Suc drag_sum_shift by (simp add: algebra_simps)
      qed
    qed
    from a b c show ?thesis by blast
  qed
qed

text \<open>
  C8. \<^verbatim>\<open>steps(distance)\<close> returns for every distance (the model is a total function, its
  termination proved above: each iteration takes more than 0.25 off the distance), the
  result is a non-negative integer, and \<^verbatim>\<open>steps(0)\<close> is 0. The result \<open>n\<close> is the number of
  iterations of a loop that starts at velocity 11.5, multiplies it by 0.98 each time and
  stops the first time the remaining distance is not positive or the velocity is 0.25 or
  less.
\<close>

theorem steps_terminates:
  "0 \<le> steps distance \<and> steps 0 = 0
   \<and> (\<exists>n. steps distance = int n
        \<and> (distance - (\<Sum>i<n. KICK_STRENGTH * DRAG ^ i) \<le> 0 \<or> KICK_STRENGTH * DRAG ^ n \<le> 0.25)
        \<and> (\<forall>m<n. distance - (\<Sum>i<m. KICK_STRENGTH * DRAG ^ i) > 0
                  \<and> KICK_STRENGTH * DRAG ^ m > 0.25))"
proof -
  obtain n where n: "steps distance = int n"
     "distance - (\<Sum>i<n. KICK_STRENGTH * DRAG ^ i) \<le> 0 \<or> KICK_STRENGTH * DRAG ^ n \<le> 0.25"
     "\<forall>m<n. distance - (\<Sum>i<m. KICK_STRENGTH * DRAG ^ i) > 0 \<and> KICK_STRENGTH * DRAG ^ m > 0.25"
    using steps_loop_exit[of distance 0 KICK_STRENGTH] unfolding steps_def by auto
  have "steps 0 = 0" by (simp add: steps_def steps_loop.simps)
  with n show ?thesis by auto
qed

theorem steps_terminates_witness:
  "0 \<le> steps 12 \<and> steps 0 = 0 \<and> steps 12 = 2
   \<and> 0 < (12::real) - (\<Sum>i<1. KICK_STRENGTH * DRAG ^ i)
   \<and> (12::real) - (\<Sum>i<2. KICK_STRENGTH * DRAG ^ i) \<le> 0"
proof -
  have a: "steps 12 = 2" by (simp add: steps_def steps_loop.simps geom)
  from steps_terminates[of 12] obtain n where
    n: "steps 12 = int n"
       "12 - (\<Sum>i<n. KICK_STRENGTH * DRAG ^ i) \<le> 0 \<or> KICK_STRENGTH * DRAG ^ n \<le> 0.25"
       "\<forall>m<n. 12 - (\<Sum>i<m. KICK_STRENGTH * DRAG ^ i) > 0 \<and> KICK_STRENGTH * DRAG ^ m > 0.25"
    and b: "0 \<le> steps 12" "steps 0 = 0"
    by blast
  from n(1) a have n2: "n = 2" by simp
  from n(3) n2 have "(1::nat) < 2 \<longrightarrow> 12 - (\<Sum>i<1. KICK_STRENGTH * DRAG ^ i) > 0
        \<and> KICK_STRENGTH * DRAG ^ 1 > 0.25"
    by blast
  then have c: "0 < (12::real) - (\<Sum>i<1. KICK_STRENGTH * DRAG ^ i)" by simp
  have "\<not> KICK_STRENGTH * DRAG ^ 2 \<le> 0.25" by (simp add: geom power2_eq_square)
  with n(2) n2 have d: "(12::real) - (\<Sum>i<2. KICK_STRENGTH * DRAG ^ i) \<le> 0" by blast
  from a b c d show ?thesis by blast
qed

subsection \<open>Ownership\<close>

lemma team_timer_update:
  "team ((ps[i := (ps ! i)\<lparr>timer := t\<rparr>]) ! j) = team (ps ! j)"
proof (cases "i < length ps")
  case True
  then show ?thesis by (cases "i = j") simp_all
next
  case False
  then show ?thesis by (simp add: not_less list_update_beyond)
qed

lemma successively_snoc:
  "successively P xs \<Longrightarrow> xs \<noteq> [] \<Longrightarrow> P (last xs) w \<Longrightarrow> successively P (xs @ [w])"
  by (simp add: successively_append_iff)

lemma ball_move_teams: "team (players (ball_move g) ! j) = team (players g ! j)"
  by (simp add: ball_move_def ball_dribble_def Let_def team_timer_update split: option.splits)

lemma ball_move_owner:
  "ball_owner (ball (ball_move g)) = ball_owner (ball g) \<or> ball_owner (ball (ball_move g)) = None"
  by (simp add: ball_move_def ball_dribble_def Let_def split: option.splits)

lemma ball_move_length: "length (players (ball_move g)) = length (players g)"
  by (simp add: ball_move_def ball_dribble_def Let_def split: option.splits)

lemma acquire_step_teams: "team (players (acquire_step g i) ! j) = team (players g ! j)"
  by (simp add: acquire_step_def Let_def team_timer_update split: option.splits)

lemma acquire_step_owner:
  "owner_step_ok (players g) (ball_owner (ball g)) (ball_owner (ball (acquire_step g i)))"
  by (auto simp add: acquire_step_def can_acquire_def owner_step_ok_def Let_def split: option.splits)

lemma owner_step_ok_teams:
  "(\<And>j. team (ps' ! j) = team (ps ! j)) \<Longrightarrow> owner_step_ok ps' a b = owner_step_ok ps a b"
  by (simp add: owner_step_ok_def split: option.splits)

lemma acquire_owners_ok:
  "(\<And>j. team (players g ! j) = team (ps ! j)) \<Longrightarrow>
   successively (owner_step_ok ps) (ball_owner (ball g) # acquire_owners g ix)"
proof (induction ix arbitrary: g)
  case Nil
  then show ?case by simp
next
  case (Cons i ix)
  have t: "\<And>j. team (players (acquire_step g i) ! j) = team (ps ! j)"
    using Cons.prems by (simp add: acquire_step_teams)
  have "owner_step_ok ps (ball_owner (ball g)) (ball_owner (ball (acquire_step g i)))"
    using acquire_step_owner[of g i] owner_step_ok_teams[of "players g" ps] Cons.prems by simp
  moreover have "successively (owner_step_ok ps)
      (ball_owner (ball (acquire_step g i)) # acquire_owners (acquire_step g i) ix)"
    using Cons.IH[OF t] .
  ultimately show ?case by (simp add: Let_def)
qed

lemma acquire_owners_last:
  "last (ball_owner (ball g) # acquire_owners g ix) = ball_owner (ball (foldl acquire_step g ix))"
  by (induction ix arbitrary: g) (simp_all add: Let_def)

lemma kick_owner: "kick g oi target = Inr g' \<Longrightarrow> ball_owner (ball g') = None"
  by (auto simp add: kick_def Let_def split: option.splits sum.splits prod.splits entity.splits)

lemma shoot_owner:
  "shoot keyboard g = Inr g' \<Longrightarrow>
   ball_owner (ball g') = ball_owner (ball g) \<or> ball_owner (ball g') = None"
  by (auto simp add: shoot_def Let_def dest: kick_owner
           split: option.splits sum.splits prod.splits if_splits)

lemma owner_step_ok_same_or_none:
  "b = a \<or> b = None \<Longrightarrow> owner_step_ok ps a b"
  by (auto simp add: owner_step_ok_def split: option.splits)

lemma owner_trace_ok: "successively (owner_step_ok (players g)) (owner_trace keyboard g)"
proof -
  let ?P = "owner_step_ok (players g)"
  let ?g1 = "ball_move g"
  let ?ix = "[0..<length (players ?g1)]"
  let ?mid = "ball_owner (ball ?g1) # acquire_owners ?g1 ?ix"
  have mid: "successively ?P ?mid"
    by (rule acquire_owners_ok) (simp add: ball_move_teams)
  have first: "?P (ball_owner (ball g)) (ball_owner (ball ?g1))"
    using ball_move_owner[of g] by (intro owner_step_ok_same_or_none) auto
  have pre: "successively ?P (ball_owner (ball g) # ?mid)"
    using mid first by simp
  show ?thesis
  proof (cases "Ball_update keyboard g")
    case (Inl e)
    then show ?thesis using pre by (simp add: owner_trace_def)
  next
    case (Inr g')
    then have "shoot keyboard (foldl acquire_step ?g1 ?ix) = Inr g'"
      by (simp add: Ball_update_def acquire_def)
    from shoot_owner[OF this]
    have "?P (last ?mid) (ball_owner (ball g'))"
      unfolding acquire_owners_last by (intro owner_step_ok_same_or_none) auto
    then have "?P (last (ball_owner (ball g) # ?mid)) (ball_owner (ball g'))"
      by simp
    with pre have "successively ?P ((ball_owner (ball g) # ?mid) @ [ball_owner (ball g')])"
      by (intro successively_snoc) simp_all
    then show ?thesis using Inr by (simp add: owner_trace_def)
  qed
qed

lemma upt_14: "[0..<14] = [0, 1, 2, 3, 4, 5, 6, 7, 8, 9, 10, 11, 12, 13]"
  by code_simp

lemma cos8_0 [simp]: "cos8 0 = 1" by (simp add: cos8_def)
lemma cos8_4 [simp]: "cos8 4 = -1" by (simp add: cos8_def)

lemmas eval_defs = column_defs DIFFICULTY_def geom vec

lemma tackle_move: "ball_move tackle_game = tackle_game\<lparr>ball := (ball tackle_game)\<lparr>ball_timer := 29\<rparr>\<rparr>"
  by (simp add: ball_move_def ball_dribble_def avg_def on_pitch_def collidepoint_def tackle_game_def eval_defs)

lemma tackle_step0: "acquire_step (ball_move tackle_game) 0 = tackled"
  unfolding tackle_move
  by (simp add: acquire_step_def can_acquire_def collide_def tackle_game_def tackled_def eval_defs)

lemma tackled_fix: "i \<in> {1,2,3,4,5,6,7,8,9,10,11,12,13} \<Longrightarrow> acquire_step tackled i = tackled"
  by (auto simp add: acquire_step_def can_acquire_def collide_def tackle_game_def tackled_def eval_defs)

lemma tackle_trace_acq:
  "acquire_owners (ball_move tackle_game) [0..<length (players (ball_move tackle_game))]
    = replicate 14 (Some 0)"
proof -
  have len: "length (players (ball_move tackle_game)) = 14"
    by (simp add: ball_move_length tackle_game_def column_players_def)
  have t0: "ball_owner (ball tackled) = Some 0" by (simp add: tackled_def)
  show ?thesis
    unfolding len upt_14
    by (simp add: tackle_step0 tackled_fix t0 Let_def numeral_eq_Suc)
qed


lemma tackle_acquire: "acquire (ball_move tackle_game) = tackled"
proof -
  have len: "length (players (ball_move tackle_game)) = 14"
    by (simp add: ball_move_length tackle_game_def column_players_def)
  show ?thesis
    unfolding acquire_def len upt_14
    by (simp add: tackle_step0 tackled_fix)
qed

lemma tackled_targets:
  "targetable_players tackled (players tackled ! 0) = [PlayerRef 2, PlayerRef 4, PlayerRef 6]"
  by (simp add: targetable_players_def entities_def upt_14 upt_conv_Cons new_goal_def
        targetable_def safe_normalise_def ent_vpos_def ent_team_def human_def
        tackled_def tackle_game_def eval_defs angle_to_vec_0)

lemma tackled_target: "shoot_target tackled (players tackled ! 0) = Some (PlayerRef 6)"
  unfolding shoot_target_def tackled_targets
  by (simp add: min_key_def dist_key_def ent_vpos_def tackled_def tackle_game_def eval_defs)

lemma tackled_facts:
  "ball_owner (ball tackled) = Some 0"
  "controls (teams tackled ! team (players tackled ! 0)) = Some 0"
  "key_status tackled = Map.empty"
  "ent_vpos tackled (PlayerRef 6) = (500, 450)"
  by (simp_all add: ent_vpos_def tackled_def tackle_game_def eval_defs)

lemma tackle_update:
  "Ball_update no_keys tackle_game =
     Inr (tackled\<lparr>debug_shoot_target := Some (500, 450), key_status := [Key_SPACE \<mapsto> False]\<rparr>)"
  unfolding Ball_update_def tackle_acquire
  by (simp add: shoot_def tackled_target tackled_facts Let_def
        do_shoot_def key_just_pressed_def key_shoot_def no_keys_def)

lemma kick_teams: "kick g oi target = Inr g' \<Longrightarrow> team (players g' ! j) = team (players g ! j)"
  by (auto simp add: kick_def Let_def team_timer_update
           split: option.splits sum.splits prod.splits entity.splits)

lemma shoot_teams:
  "shoot keyboard g = Inr g' \<Longrightarrow> team (players g' ! j) = team (players g ! j)"
  by (auto simp add: shoot_def Let_def dest: kick_teams
           split: option.splits sum.splits prod.splits if_splits)

lemma foldl_acquire_teams: "team (players (foldl acquire_step g ix) ! j) = team (players g ! j)"
  by (induction ix arbitrary: g) (simp_all add: acquire_step_teams)

lemma Ball_update_teams:
  "Ball_update keyboard g = Inr g' \<Longrightarrow> team (players g' ! j) = team (players g ! j)"
  by (simp add: Ball_update_def acquire_def shoot_teams foldl_acquire_teams ball_move_teams)

text \<open>
  C4. The owner of the ball is a value that is no player or one player. During one
  \<^verbatim>\<open>Ball.update\<close> the owner changes only in steps of these kinds: it stays, the ball becomes
  free, a player takes the free ball, or a player takes the ball from a player of the other
  team. So the ball never passes from a player to another player of the same team unless it
  is free or with the other team in between. The trace starts at the owner before the call
  and, when the call returns, ends at the owner after it; the call changes no player's team.
\<close>

theorem ownership_transfer:
  "successively (owner_step_ok (players g)) (owner_trace keyboard g)
   \<and> hd (owner_trace keyboard g) = ball_owner (ball g)
   \<and> (\<forall>g'. Ball_update keyboard g = Inr g' \<longrightarrow>
          last (owner_trace keyboard g) = ball_owner (ball g')
          \<and> (\<forall>j. team (players g' ! j) = team (players g ! j)))
   \<and> (ball_owner (ball g) = None \<or> (\<exists>!i. ball_owner (ball g) = Some i))"
proof -
  have "\<forall>g'. Ball_update keyboard g = Inr g' \<longrightarrow>
          last (owner_trace keyboard g) = ball_owner (ball g')
          \<and> (\<forall>j. team (players g' ! j) = team (players g ! j))"
    by (auto simp add: owner_trace_def Ball_update_teams)
  moreover have "hd (owner_trace keyboard g) = ball_owner (ball g)"
    by (simp add: owner_trace_def)
  moreover have "ball_owner (ball g) = None \<or> (\<exists>!i. ball_owner (ball g) = Some i)"
    by (cases "ball_owner (ball g)") auto
  ultimately show ?thesis using owner_trace_ok[of g keyboard] by blast
qed

theorem ownership_transfer_witness:
  "successively (owner_step_ok (players tackle_game)) (owner_trace no_keys tackle_game)
   \<and> owner_trace no_keys tackle_game = Some 1 # Some 1 # replicate 14 (Some 0) @ [Some 0]
   \<and> team (players tackle_game ! 1) \<noteq> team (players tackle_game ! 0)
   \<and> Ball_update no_keys tackle_game =
       Inr (tackled\<lparr>debug_shoot_target := Some (500, 450), key_status := [Key_SPACE \<mapsto> False]\<rparr>)
   \<and> last (owner_trace no_keys tackle_game) = Some 0"
proof -
  let ?g' = "tackled\<lparr>debug_shoot_target := Some (500, 450), key_status := [Key_SPACE \<mapsto> False]\<rparr>"
  have t: "owner_trace no_keys tackle_game = Some 1 # Some 1 # replicate 14 (Some 0) @ [Some 0]"
    unfolding owner_trace_def tackle_trace_acq tackle_update
    by (simp add: tackle_move tackled_def) (simp add: tackle_game_def column_game_def)
  have n: "team (players tackle_game ! 1) \<noteq> team (players tackle_game ! 0)"
    by (simp add: tackle_game_def eval_defs)
  have o: "ball_owner (ball ?g') = Some 0" by (simp add: tackled_def)
  from ownership_transfer[of tackle_game no_keys] tackle_update
  have "successively (owner_step_ok (players tackle_game)) (owner_trace no_keys tackle_game)"
    and "last (owner_trace no_keys tackle_game) = ball_owner (ball ?g')"
    by blast+
  with t n o tackle_update show ?thesis by simp
qed

subsection \<open>Acquisition and the timers\<close>

lemma timer_update_nth:
  "timer ((ps[o1 := (ps ! o1)\<lparr>timer := t\<rparr>]) ! i) = timer (ps ! i)
   \<or> timer ((ps[o1 := (ps ! o1)\<lparr>timer := t\<rparr>]) ! i) = t"
proof (cases "o1 < length ps")
  case True
  then show ?thesis by (cases "o1 = i") simp_all
next
  case False
  then show ?thesis by (simp add: not_less list_update_beyond)
qed

lemma vpos_timer_update:
  "vpos ((ps[o1 := (ps ! o1)\<lparr>timer := t\<rparr>]) ! i) = vpos (ps ! i)"
proof (cases "o1 < length ps")
  case True
  then show ?thesis by (cases "o1 = i") simp_all
next
  case False
  then show ?thesis by (simp add: not_less list_update_beyond)
qed

lemma acquire_step_timer:
  "timer (players (acquire_step g j) ! i) = timer (players g ! i)
   \<or> timer (players (acquire_step g j) ! i) = 60"
  using timer_update_nth[of "players g" _ 60 i]
  by (auto simp add: acquire_step_def Let_def split: option.splits)

lemma acquire_step_vpos: "vpos (players (acquire_step g j) ! i) = vpos (players g ! i)"
  by (simp add: acquire_step_def Let_def vpos_timer_update split: option.splits)

lemma acquire_step_ball_vpos: "ball_vpos (ball (acquire_step g j)) = ball_vpos (ball g)"
  by (simp add: acquire_step_def Let_def)

lemma acquire_step_new_owner:
  "ball_owner (ball (acquire_step g j)) = Some i \<Longrightarrow> ball_owner (ball g) \<noteq> Some i \<Longrightarrow>
   j = i \<and> can_acquire g i"
  by (auto simp add: acquire_step_def Let_def split: if_splits)

lemma foldl_acquire_new_owner:
  "ball_owner (ball (foldl acquire_step g ix)) = Some i \<Longrightarrow> ball_owner (ball g) \<noteq> Some i \<Longrightarrow>
   i \<in> set ix \<and> timer (players g ! i) < 0
   \<and> dist_key (ball_vpos (ball g)) (vpos (players g ! i)) \<le> DRIBBLE_DIST_X"
proof (induction ix arbitrary: g)
  case Nil
  then show ?case by simp
next
  case (Cons j ix)
  show ?case
  proof (cases "ball_owner (ball (acquire_step g j)) = Some i")
    case True
    from acquire_step_new_owner[OF True Cons.prems(2)]
    show ?thesis by (simp add: can_acquire_def collide_def dist_key_def)
  next
    case False
    from Cons.prems(1) have "ball_owner (ball (foldl acquire_step (acquire_step g j) ix)) = Some i"
      by simp
    from Cons.IH[OF this False]
    have ih: "i \<in> set ix" "timer (players (acquire_step g j) ! i) < 0"
      "dist_key (ball_vpos (ball (acquire_step g j))) (vpos (players (acquire_step g j) ! i))
         \<le> DRIBBLE_DIST_X"
      by simp_all
    from ih(2) acquire_step_timer[of g j i] have "timer (players g ! i) < 0" by auto
    with ih(1,3) show ?thesis by (simp add: acquire_step_vpos acquire_step_ball_vpos)
  qed
qed

lemma acquire_step_with_ball_timer:
  "acquire_step (with_ball_timer t g) j =
     (if can_acquire g j then acquire_step g j else with_ball_timer t g)"
  by (simp add: acquire_step_def can_acquire_def collide_def with_ball_timer_def Let_def
           split: option.splits)

lemma foldl_acquire_with_ball_timer:
  "foldl acquire_step (with_ball_timer t g) ix = foldl acquire_step g ix
   \<or> foldl acquire_step (with_ball_timer t g) ix = with_ball_timer t (foldl acquire_step g ix)"
proof (induction ix arbitrary: g)
  case Nil
  then show ?case by simp
next
  case (Cons j ix)
  show ?case
  proof (cases "can_acquire g j")
    case True
    then show ?thesis by (simp add: acquire_step_with_ball_timer)
  next
    case False
    then have "acquire_step g j = g" by (simp add: acquire_step_def)
    with False Cons.IH[of g] show ?thesis by (simp add: acquire_step_with_ball_timer)
  qed
qed

lemma acquire_owner_ball_timer:
  "ball_owner (ball (acquire (g\<lparr>ball := (ball g)\<lparr>ball_timer := t\<rparr>\<rparr>))) = ball_owner (ball (acquire g))"
proof -
  have "players (with_ball_timer t g) = players g" by (simp add: with_ball_timer_def)
  then have "acquire (with_ball_timer t g) = acquire g
        \<or> acquire (with_ball_timer t g) = with_ball_timer t (acquire g)"
    using foldl_acquire_with_ball_timer[of t g "[0..<length (players g)]"]
    by (simp add: acquire_def)
  then show ?thesis by (auto simp add: with_ball_timer_def)
qed


lemma ball_move_lost:
  "i < length (players g) \<Longrightarrow> ball_owner (ball g) = Some i \<Longrightarrow> lost_or_owner i (ball_move g)"
  by (simp add: lost_or_owner_def ball_move_def ball_dribble_def Let_def)

lemma acquire_step_lost: "lost_or_owner i g \<Longrightarrow> lost_or_owner i (acquire_step g j)"
proof (cases "can_acquire g j")
  case False
  assume "lost_or_owner i g"
  with False show ?thesis by (simp add: acquire_step_def)
next
  case True
  assume inv: "lost_or_owner i g"
  then have len: "i < length (players g)" by (simp add: lost_or_owner_def)
  show ?thesis
  proof (cases "ball_owner (ball g)")
    case None
    with inv have "timer (players g ! i) = 60" by (simp add: lost_or_owner_def)
    with True None len show ?thesis
      by (simp add: lost_or_owner_def acquire_step_def Let_def)
  next
    case (Some o1)
    show ?thesis
    proof (cases "o1 = i")
      case True
      with \<open>can_acquire g j\<close> Some len show ?thesis
        by (simp add: lost_or_owner_def acquire_step_def Let_def)
    next
      case False
      with inv Some have "timer (players g ! i) = 60" by (simp add: lost_or_owner_def)
      with \<open>can_acquire g j\<close> Some len False show ?thesis
        by (simp add: lost_or_owner_def acquire_step_def Let_def)
    qed
  qed
qed

lemma foldl_acquire_lost: "lost_or_owner i g \<Longrightarrow> lost_or_owner i (foldl acquire_step g ix)"
  by (induction ix arbitrary: g) (simp_all add: acquire_step_lost)

lemma kick_players:
  "kick g oi target = Inr g' \<Longrightarrow>
   players g' = (players g)[oi := (players g ! oi)\<lparr>timer := 10\<rparr>] \<and> ball_owner (ball g') = None"
  by (auto simp add: kick_def Let_def split: option.splits sum.splits prod.splits entity.splits)

lemma shoot_players:
  "shoot keyboard g = Inr g' \<Longrightarrow>
   (players g' = players g \<and> ball_owner (ball g') = ball_owner (ball g))
   \<or> (\<exists>oi. ball_owner (ball g) = Some oi
         \<and> players g' = (players g)[oi := (players g ! oi)\<lparr>timer := 10\<rparr>]
         \<and> ball_owner (ball g') = None)"
  by (auto simp add: shoot_def Let_def dest!: kick_players
           split: option.splits sum.splits prod.splits if_splits)

lemma shoot_lost:
  assumes "lost_or_owner i g" and "shoot keyboard g = Inr g'" and "ball_owner (ball g') \<noteq> Some i"
  shows "timer (players g' ! i) = 60 \<or> timer (players g' ! i) = 10"
proof -
  from assms(1) have len: "i < length (players g)" by (simp add: lost_or_owner_def)
  from shoot_players[OF assms(2)] show ?thesis
  proof
    assume "players g' = players g \<and> ball_owner (ball g') = ball_owner (ball g)"
    with assms(1,3) show ?thesis by (simp add: lost_or_owner_def)
  next
    assume "\<exists>oi. ball_owner (ball g) = Some oi
         \<and> players g' = (players g)[oi := (players g ! oi)\<lparr>timer := 10\<rparr>]
         \<and> ball_owner (ball g') = None"
    then obtain oi where oi: "ball_owner (ball g) = Some oi"
        "players g' = (players g)[oi := (players g ! oi)\<lparr>timer := 10\<rparr>]" by blast
    show ?thesis
    proof (cases "oi = i")
      case True
      with oi len show ?thesis by simp
    next
      case False
      with oi assms(1) show ?thesis by (simp add: lost_or_owner_def)
    qed
  qed
qed

lemma Ball_update_lost:
  assumes "i < length (players g)" and "ball_owner (ball g) = Some i"
    and "Ball_update keyboard g = Inr g'" and "ball_owner (ball g') \<noteq> Some i"
  shows "timer (players g' ! i) = 60 \<or> timer (players g' ! i) = 10"
proof -
  have "lost_or_owner i (acquire (ball_move g))"
    unfolding acquire_def by (intro foldl_acquire_lost ball_move_lost assms(1,2))
  moreover have "shoot keyboard (acquire (ball_move g)) = Inr g'"
    using assms(3) by (simp add: Ball_update_def)
  ultimately show ?thesis using assms(4) by (rule shoot_lost)
qed

text \<open>
  C5 (amended). What keeps a player from taking the ball is the player's own timer, not the
  ball's. The acquisition loop makes a player who is not the owner the owner only if that
  player's timer is negative (and the player is within 18 units of the ball); its result
  does not depend on the ball's timer; and a player who loses the ball during a
  \<^verbatim>\<open>Ball.update\<close> leaves the call with its timer at 60 (tackled, or dribbled off the pitch)
  or 10 (it kicked), so it cannot take the ball again in the next 10 frames at least.
\<close>

theorem reacquire_needs_own_timer:
  "(ball_owner (ball (acquire g)) = Some i \<and> ball_owner (ball g) \<noteq> Some i \<longrightarrow>
      i < length (players g) \<and> timer (players g ! i) < 0
      \<and> dist_key (ball_vpos (ball g)) (vpos (players g ! i)) \<le> 18)
   \<and> ball_owner (ball (acquire (g\<lparr>ball := (ball g)\<lparr>ball_timer := t\<rparr>\<rparr>))) = ball_owner (ball (acquire g))
   \<and> (i < length (players g) \<and> ball_owner (ball g) = Some i
        \<and> Ball_update keyboard g = Inr g' \<and> ball_owner (ball g') \<noteq> Some i \<longrightarrow>
        timer (players g' ! i) = 60 \<or> timer (players g' ! i) = 10)"
proof -
  have a: "ball_owner (ball (acquire g)) = Some i \<and> ball_owner (ball g) \<noteq> Some i \<longrightarrow>
      i < length (players g) \<and> timer (players g ! i) < 0
      \<and> dist_key (ball_vpos (ball g)) (vpos (players g ! i)) \<le> 18"
    using foldl_acquire_new_owner[of g "[0..<length (players g)]" i]
    by (simp add: acquire_def DRIBBLE_DIST_X_def)
  have b: "i < length (players g) \<and> ball_owner (ball g) = Some i
        \<and> Ball_update keyboard g = Inr g' \<and> ball_owner (ball g') \<noteq> Some i \<longrightarrow>
        timer (players g' ! i) = 60 \<or> timer (players g' ! i) = 10"
    using Ball_update_lost[of i g keyboard g'] by blast
  from a b acquire_owner_ball_timer[where g = g and t = t] show ?thesis by blast
qed

lemma retake_move:
  "ball_move retake_game = retake_game\<lparr>ball := (ball retake_game)\<lparr>ball_timer := 59\<rparr>\<rparr>"
  by (simp add: ball_move_def ball_dribble_def avg_def on_pitch_def collidepoint_def
        retake_game_def tackled_def tackle_game_def eval_defs)

lemma retake_steps:
  "acquire_step (ball_move retake_game) 0 = ball_move retake_game"
  "acquire_step (ball_move retake_game) (Suc 0) = retaken"
  unfolding retake_move
  by (simp_all add: acquire_step_def can_acquire_def collide_def retake_game_def tackled_def tackle_game_def retaken_def eval_defs)

lemma retaken_fix: "i \<in> {2,3,4,5,6,7,8,9,10,11,12,13} \<Longrightarrow> acquire_step retaken i = retaken"
  by (auto simp add: acquire_step_def can_acquire_def collide_def retake_game_def tackled_def tackle_game_def retaken_def eval_defs)

lemma retake_acquire: "acquire (ball_move retake_game) = retaken"
proof -
  have len: "length (players (ball_move retake_game)) = 14"
    by (simp add: ball_move_length retake_game_def tackled_def tackle_game_def column_players_def)
  show ?thesis
    unfolding acquire_def len upt_14
    by (simp add: retake_steps retaken_fix)
qed

text \<open>
  C5 as stated fails. Player 1 owns the ball; player 0 takes it (player 1's timer becomes
  60, the ball's 120 on this difficulty). 61 frames later player 1's timer is -1 and the
  ball's is 59 after the decrement of that frame, still positive, and the acquisition
  loop makes player 1, the previous owner, the owner again.
\<close>

theorem previous_owner_reacquires_counterexample:
  "ball_owner (ball tackle_game) = Some 1
   \<and> Ball_update no_keys tackle_game =
       Inr (tackled\<lparr>debug_shoot_target := Some (500, 450), key_status := [Key_SPACE \<mapsto> False]\<rparr>)
   \<and> ball_owner (ball tackled) = Some 0
   \<and> timer (players tackled ! 1) = 60
   \<and> ball_owner (ball retake_game) = Some 0
   \<and> timer (players retake_game ! 1) = -1
   \<and> ball_timer (ball (ball_move retake_game)) = 59
   \<and> ball_owner (ball (acquire (ball_move retake_game))) = Some 1"
proof -
  have a: "ball_owner (ball (acquire (ball_move retake_game))) = Some 1"
    unfolding retake_acquire by (simp add: retaken_def)
  have b: "ball_timer (ball (ball_move retake_game)) = 59"
    unfolding retake_move by simp
  have c: "ball_owner (ball tackle_game) = Some 1 \<and> ball_owner (ball tackled) = Some 0
     \<and> timer (players tackled ! 1) = 60 \<and> ball_owner (ball retake_game) = Some 0
     \<and> timer (players retake_game ! 1) = -1"
    by (simp add: retake_game_def tackled_def tackle_game_def tackled_def) (simp add: tackle_game_def eval_defs)
  from a b c tackle_update show ?thesis by simp
qed

theorem reacquire_needs_own_timer_witness:
  "ball_owner (ball (acquire (ball_move retake_game))) = Some 1
   \<and> ball_owner (ball (ball_move retake_game)) \<noteq> Some 1
   \<and> timer (players (ball_move retake_game) ! 1) < 0
   \<and> 1 < length (players tackle_game)
   \<and> ball_owner (ball tackle_game) = Some 1
   \<and> Ball_update no_keys tackle_game =
       Inr (tackled\<lparr>debug_shoot_target := Some (500, 450), key_status := [Key_SPACE \<mapsto> False]\<rparr>)
   \<and> timer (players tackled ! 1) = 60"
proof -
  let ?g' = "tackled\<lparr>debug_shoot_target := Some (500, 450), key_status := [Key_SPACE \<mapsto> False]\<rparr>"
  have a: "ball_owner (ball (acquire (ball_move retake_game))) = Some 1"
    unfolding retake_acquire by (simp add: retaken_def)
  have b: "ball_owner (ball (ball_move retake_game)) \<noteq> Some 1"
    unfolding retake_move by (simp add: retake_game_def tackled_def)
  from reacquire_needs_own_timer[of "ball_move retake_game" 1] a b
  have c: "timer (players (ball_move retake_game) ! 1) < 0" by blast
  have d: "1 < length (players tackle_game)" "ball_owner (ball tackle_game) = Some 1"
    by (simp_all add: tackle_game_def eval_defs)
  have e: "ball_owner (ball ?g') \<noteq> Some 1" by (simp add: tackled_def)
  from reacquire_needs_own_timer[where g = tackle_game and i = 1 and keyboard = no_keys and g' = ?g'] d tackle_update e
  have "timer (players ?g' ! 1) = 60 \<or> timer (players ?g' ! 1) = 10"
    by blast
  moreover have "timer (players ?g' ! 1) \<noteq> 10"
    by (simp add: tackled_def) (simp add: tackle_game_def eval_defs)
  ultimately have f: "timer (players tackled ! 1) = 60" by simp
  from a b c d f tackle_update show ?thesis by blast
qed

subsection \<open>The decision to kick\<close>

lemma tuple_lt_True: "tuple_lt a b = Inr True \<longleftrightarrow> fst a < fst b"
  by (auto simp add: tuple_lt_def)

lemma do_shoot_ai:
  assumes "controls (teams g ! team ow) = None"
  shows "(\<exists>ks. do_shoot keyboard g ow target = Inr (True, ks)) \<longleftrightarrow>
     ball_timer (ball g) \<le> 0
     \<and> (\<exists>t ct co. target = Some t
           \<and> cost g (ent_vpos g t) (team ow) 0 = Inr ct
           \<and> cost g (vpos ow) (team ow) 0 = Inr co
           \<and> fst ct < fst co)"
proof (cases "ball_timer (ball g) \<le> 0")
  case False
  with assms show ?thesis by (simp add: do_shoot_def)
next
  case True
  show ?thesis
  proof (cases target)
    case None
    with assms True show ?thesis by (simp add: do_shoot_def)
  next
    case (Some t)
    show ?thesis
    proof (cases "cost g (ent_vpos g t) (team ow) 0")
      case (Inl e)
      with assms True Some show ?thesis by (simp add: do_shoot_def)
    next
      case ct: (Inr ct)
      show ?thesis
      proof (cases "cost g (vpos ow) (team ow) 0")
        case (Inl e)
        with assms True Some ct show ?thesis by (simp add: do_shoot_def)
      next
        case co: (Inr co)
        have "(\<exists>ks. do_shoot keyboard g ow target = Inr (True, ks)) \<longleftrightarrow> tuple_lt ct co = Inr True"
          using assms True Some ct co by (auto simp add: do_shoot_def split: sum.splits)
        moreover have "(\<exists>t' ct' co'. target = Some t'
               \<and> cost g (ent_vpos g t') (team ow) 0 = Inr ct'
               \<and> cost g (vpos ow) (team ow) 0 = Inr co'
               \<and> fst ct' < fst co') \<longleftrightarrow> fst ct < fst co"
        proof
          assume "\<exists>t' ct' co'. target = Some t'
               \<and> cost g (ent_vpos g t') (team ow) 0 = Inr ct'
               \<and> cost g (vpos ow) (team ow) 0 = Inr co'
               \<and> fst ct' < fst co'"
          then obtain t' ct' co' where h: "target = Some t'"
               "cost g (ent_vpos g t') (team ow) 0 = Inr ct'"
               "cost g (vpos ow) (team ow) 0 = Inr co'" "fst ct' < fst co'"
            by blast
          from h(1) Some have "t' = t" by simp
          with h(2,3) ct co have "ct' = ct" "co' = co" by simp_all
          with h(4) show "fst ct < fst co" by simp
        next
          assume "fst ct < fst co"
          with Some ct co show "\<exists>t' ct' co'. target = Some t'
               \<and> cost g (ent_vpos g t') (team ow) 0 = Inr ct'
               \<and> cost g (vpos ow) (team ow) 0 = Inr co'
               \<and> fst ct' < fst co'"
            by blast
        qed
        ultimately show ?thesis using True by (simp only: tuple_lt_True simp_thms)
      qed
    qed
  qed
qed

lemma do_shoot_human:
  assumes "controls (teams g ! team ow) = Some pn"
  shows "do_shoot keyboard g ow target =
     Inr (keyboard (key_shoot pn) \<and> key_status g (key_shoot pn) \<noteq> Some True,
          (key_status g)(key_shoot pn \<mapsto> keyboard (key_shoot pn)))"
  using assms
  by (auto simp add: do_shoot_def key_just_pressed_def Let_def split: option.splits)

lemma cost_debug [simp]: "cost (g\<lparr>debug_shoot_target := d\<rparr>) pos tm h = cost g pos tm h"
  by (simp add: cost_def Let_def)

lemma ent_vpos_debug [simp]: "ent_vpos (g\<lparr>debug_shoot_target := d\<rparr>) e = ent_vpos g e"
  by (simp add: ent_vpos_def split: entity.splits)

lemma do_shoot_debug [simp]:
  "do_shoot keyboard (g\<lparr>debug_shoot_target := d\<rparr>) ow target = do_shoot keyboard g ow target"
  by (simp add: do_shoot_def split: option.splits sum.splits)

lemma shoot_fires:
  assumes "ball_owner (ball g) = Some oi" and "shoot keyboard g = Inr g'"
  shows "ball_owner (ball g') = None \<longleftrightarrow>
     (\<exists>ks. do_shoot keyboard g (players g ! oi) (shoot_target g (players g ! oi)) = Inr (True, ks))"
  using assms
  by (auto simp add: shoot_def Let_def dest: kick_owner
           split: option.splits sum.splits prod.splits if_splits)

text \<open>
  C1 (amended). For an owner of a computer-controlled team the decision to kick is true
  exactly when the ball's timer (not the owner's) is 0 or less, there is a target, and the
  cost of the target's position for the owner's team is strictly lower than the cost of
  the owner's position (both costs being defined). For an owner of a team played from the
  keyboard the decision is the edge of the team's shoot key: down now and not down at the
  previous call of \<^verbatim>\<open>key_just_pressed\<close>, which records the key's state. When
  \<^verbatim>\<open>Ball.update\<close>'s kick part returns, the ball has been kicked (it has no owner) exactly when
  the decision was true. There is a target exactly when some player or goal of the owner's
  team is targetable.
\<close>

theorem shoot_decision:
  "(controls (teams g ! team ow) = None \<longrightarrow>
      ((\<exists>ks. do_shoot keyboard g ow target = Inr (True, ks)) \<longleftrightarrow>
         ball_timer (ball g) \<le> 0
         \<and> (\<exists>t ct co. target = Some t
               \<and> cost g (ent_vpos g t) (team ow) 0 = Inr ct
               \<and> cost g (vpos ow) (team ow) 0 = Inr co
               \<and> fst ct < fst co)))
   \<and> (\<forall>pn. controls (teams g ! team ow) = Some pn \<longrightarrow>
         do_shoot keyboard g ow target =
           Inr (keyboard (key_shoot pn) \<and> key_status g (key_shoot pn) \<noteq> Some True,
                (key_status g)(key_shoot pn \<mapsto> keyboard (key_shoot pn))))
   \<and> (\<forall>oi g'. ball_owner (ball g) = Some oi \<and> shoot keyboard g = Inr g' \<longrightarrow>
         (ball_owner (ball g') = None \<longleftrightarrow>
            (\<exists>ks. do_shoot keyboard g (players g ! oi) (shoot_target g (players g ! oi))
                    = Inr (True, ks))))
   \<and> (shoot_target g ow = None \<longleftrightarrow> targetable_players g ow = [])"
proof -
  have "shoot_target g ow = None \<longleftrightarrow> targetable_players g ow = []"
    by (simp add: shoot_target_def split: list.splits)
  then show ?thesis
    using do_shoot_ai[of g ow keyboard target] do_shoot_human[of g ow _ keyboard target]
      shoot_fires[of g _ keyboard]
    by blast
qed


lemma column_targets:
  "targetable_players column_game (players column_game ! 1) = [PlayerRef 3]"
  by (simp add: targetable_players_def entities_def upt_14 upt_conv_Cons new_goal_def
        targetable_def lane_blocker_def safe_normalise_def ent_vpos_def ent_team_def human_def
        eval_defs angle_to_vec_4)

lemma column_target: "shoot_target column_game (players column_game ! 1) = Some (PlayerRef 3)"
  unfolding shoot_target_def column_targets by (simp add: min_key_def)

lemma column_costs:
  "cost column_game (ent_vpos column_game (PlayerRef 3)) (team (players column_game ! 1)) 0
     = Inr (- 8253676268 / 6250167, (500, 700))"
  "cost column_game (vpos (players column_game ! 1)) (team (players column_game ! 1)) 0
     = Inr (- 1988953 / 1827, (500, 600))"
  by (simp_all add: cost_def own_goal_pos_def ent_vpos_def eval_defs)

lemma column_facts:
  "controls (teams column_game ! team (players column_game ! 1)) = None"
  "ball_owner (ball column_game) = Some 1"
  "timer (players column_game ! 1) = -1"
  "ball_timer (ball column_game) = 30"
  "key_status column_game = Map.empty"
  by (simp_all add: eval_defs)

lemma column_move:
  "ball_move column_game = column_game\<lparr>ball := (ball column_game)\<lparr>ball_timer := 29\<rparr>\<rparr>"
  by (simp add: ball_move_def ball_dribble_def avg_def on_pitch_def collidepoint_def eval_defs)

lemma column_nobody:
  "\<forall>i\<in>set [0..<length (players (ball_move column_game))]. \<not> can_acquire (ball_move column_game) i"
  unfolding column_move
  by (simp add: upt_14 column_game_def column_players_def)
     (simp add: can_acquire_def collide_def eval_defs)

lemma column_acquire: "acquire (ball_move column_game) = ball_move column_game"
  unfolding acquire_def using column_nobody by (rule acquire_none)


lemma ent_vpos_ball [simp]: "ent_vpos (g\<lparr>ball := b\<rparr>) e = ent_vpos g e"
  by (simp add: ent_vpos_def split: entity.splits)

lemma ent_team_ball [simp]: "ent_team (g\<lparr>ball := b\<rparr>) e = ent_team g e"
  by (simp add: ent_team_def split: entity.splits)

lemma targetable_ball [simp]: "targetable (g\<lparr>ball := b\<rparr>) e ow = targetable g e ow"
  by (simp add: targetable_def)

lemma shoot_target_ball [simp]: "shoot_target (g\<lparr>ball := b\<rparr>) ow = shoot_target g ow"
  by (simp add: shoot_target_def targetable_players_def entities_def cong: list.case_cong)

lemma column_update:
  "Ball_update no_keys column_game =
     Inr (column_game\<lparr>ball := (ball column_game)\<lparr>ball_timer := 29\<rparr>,
                      debug_shoot_target := Some (500, 700)\<rparr>)"
proof -
  have v: "ent_vpos column_game (PlayerRef 3) = (500, 700)"
    by (simp add: ent_vpos_def eval_defs)
  have k: "column_game\<lparr>key_status := Map.empty\<rparr> = column_game"
    by (simp add: column_game_def)
  have a: "acquire (ball_move column_game)
           = column_game\<lparr>ball := (ball column_game)\<lparr>ball_timer := 29\<rparr>\<rparr>"
    using column_acquire by (simp only: column_move)
  show ?thesis
    unfolding Ball_update_def a
    by (simp add: shoot_def Let_def column_facts column_target v do_shoot_def k del: One_nat_def)
qed

text \<open>
  C1 as stated fails. Player 1, of the computer's team, owns the ball; its own timer is
  -1; its team-mate 3 is targetable and stands at a position of strictly lower cost; but
  the ball's timer is 30, and the decision is false: after the whole \<^verbatim>\<open>Ball.update\<close> the
  ball is still player 1's.
\<close>

theorem shoot_decision_counterexample:
  "controls (teams column_game ! team (players column_game ! 1)) = None
   \<and> ball_owner (ball column_game) = Some 1
   \<and> timer (players column_game ! 1) = -1
   \<and> shoot_target column_game (players column_game ! 1) = Some (PlayerRef 3)
   \<and> cost column_game (ent_vpos column_game (PlayerRef 3)) (team (players column_game ! 1)) 0
        = Inr (- 8253676268 / 6250167, (500, 700))
   \<and> cost column_game (vpos (players column_game ! 1)) (team (players column_game ! 1)) 0
        = Inr (- 1988953 / 1827, (500, 600))
   \<and> (- 8253676268 / 6250167 :: real) < - 1988953 / 1827
   \<and> ball_timer (ball column_game) = 30
   \<and> do_shoot no_keys column_game (players column_game ! 1) (Some (PlayerRef 3))
        = Inr (False, Map.empty)
   \<and> Ball_update no_keys column_game =
       Inr (column_game\<lparr>ball := (ball column_game)\<lparr>ball_timer := 29\<rparr>,
                        debug_shoot_target := Some (500, 700)\<rparr>)"
proof -
  have "do_shoot no_keys column_game (players column_game ! 1) (Some (PlayerRef 3))
        = Inr (False, Map.empty)"
    by (simp add: do_shoot_def column_facts del: One_nat_def)
  then show ?thesis
    using column_update
    by (simp add: column_facts column_target column_costs del: One_nat_def)
qed


lemma ready_players [simp]: "players ready_game = players column_game"
  and ready_teams [simp]: "teams ready_game = teams column_game"
  and ready_ball: "ball ready_game = (ball column_game)\<lparr>ball_timer := 0\<rparr>"
  and ready_keys [simp]: "key_status ready_game = key_status column_game"
  by (simp_all add: ready_game_def)

lemma cost_players: "players g' = players g \<Longrightarrow> cost g' pos tm h = cost g pos tm h"
  by (simp add: cost_def Let_def)

lemma ent_vpos_players:
  "players g' = players g \<Longrightarrow> goals g' = goals g \<Longrightarrow> ent_vpos g' e = ent_vpos g e"
  by (simp add: ent_vpos_def split: entity.splits)

lemma ready_do_shoot:
  "do_shoot no_keys ready_game (players column_game ! 1) (Some (PlayerRef 3)) = Inr (True, Map.empty)"
proof -
  have g: "goals ready_game = goals column_game" by (simp add: ready_game_def)
  have c: "cost ready_game (ent_vpos ready_game (PlayerRef 3)) (team (players column_game ! 1)) 0
        = Inr (- 8253676268 / 6250167, (500, 700))"
    "cost ready_game (vpos (players column_game ! 1)) (team (players column_game ! 1)) 0
        = Inr (- 1988953 / 1827, (500, 600))"
    using column_costs
    by (simp_all add: cost_players[of ready_game column_game]
          ent_vpos_players[of ready_game column_game] g del: One_nat_def)
  show ?thesis
    by (simp add: do_shoot_def column_facts c ready_ball tuple_lt_def del: One_nat_def)
qed

lemma ready_kick:
  "kick (ready_game\<lparr>debug_shoot_target := Some (500, 700), key_status := Map.empty\<rparr>) 1
        (Some (PlayerRef 3)) = Inr kicked_game"
  by (simp add: kick_def Let_def is_player_def human_def ent_vpos_def safe_normalise_def
        kicked_game_def ready_game_def eval_defs angle_to_vec_4)

lemma ready_shoot: "shoot no_keys ready_game = Inr kicked_game"
proof -
  have o: "ball_owner (ball ready_game) = Some 1" by (simp add: ready_ball column_facts)
  have t: "shoot_target ready_game (players column_game ! 1) = Some (PlayerRef 3)"
    by (simp add: ready_game_def column_target del: One_nat_def)
  have v: "ent_vpos ready_game (PlayerRef 3) = (500, 700)"
    by (simp add: ent_vpos_def ready_game_def eval_defs)
  show ?thesis
    using ready_kick
    by (simp add: shoot_def Let_def o t v ready_do_shoot del: One_nat_def)
qed


theorem shoot_decision_witness:
  "controls (teams ready_game ! team (players ready_game ! 1)) = None
   \<and> ball_timer (ball ready_game) \<le> 0
   \<and> (\<exists>ks. do_shoot no_keys ready_game (players ready_game ! 1) (Some (PlayerRef 3)) = Inr (True, ks))
   \<and> controls (teams tackled ! team (players tackled ! 0)) = Some 0
   \<and> do_shoot no_keys tackled (players tackled ! 0) (Some (PlayerRef 6))
        = Inr (False, [Key_SPACE \<mapsto> False])
   \<and> ball_owner (ball ready_game) = Some 1
   \<and> shoot no_keys ready_game = Inr kicked_game
   \<and> ball_owner (ball kicked_game) = None
   \<and> shoot_target ready_game (players ready_game ! 1) = Some (PlayerRef 3)
   \<and> targetable_players ready_game (players ready_game ! 1) \<noteq> []"
proof -
  let ?ow = "players ready_game ! 1"
  have a: "controls (teams ready_game ! team ?ow) = None"
    by (simp add: column_facts del: One_nat_def)
  have b: "ball_timer (ball ready_game) \<le> 0" by (simp add: ready_ball)
  have g: "goals ready_game = goals column_game" by (simp add: ready_game_def)
  have c: "cost ready_game (ent_vpos ready_game (PlayerRef 3)) (team ?ow) 0
        = Inr (- 8253676268 / 6250167, (500, 700))"
    "cost ready_game (vpos ?ow) (team ?ow) 0 = Inr (- 1988953 / 1827, (500, 600))"
    using column_costs
    by (simp_all add: cost_players[of ready_game column_game]
          ent_vpos_players[of ready_game column_game] g del: One_nat_def)
  have d: "fst (- 8253676268 / 6250167 :: real, (500::real, 700::real))
            < fst (- 1988953 / 1827 :: real, (500::real, 600::real))"
    by simp
  from c d have "\<exists>t ct co. Some (PlayerRef 3) = Some t
      \<and> cost ready_game (ent_vpos ready_game t) (team ?ow) 0 = Inr ct
      \<and> cost ready_game (vpos ?ow) (team ?ow) 0 = Inr co
      \<and> fst ct < fst co"
    by blast
  with a b shoot_decision[of ready_game ?ow no_keys "Some (PlayerRef 3)"]
  have e: "\<exists>ks. do_shoot no_keys ready_game ?ow (Some (PlayerRef 3)) = Inr (True, ks)"
    by blast
  have f: "controls (teams tackled ! team (players tackled ! 0)) = Some 0"
    by (rule tackled_facts)
  from shoot_decision[of tackled "players tackled ! 0" no_keys "Some (PlayerRef 6)"] f
  have "do_shoot no_keys tackled (players tackled ! 0) (Some (PlayerRef 6)) =
           Inr (no_keys (key_shoot 0) \<and> key_status tackled (key_shoot 0) \<noteq> Some True,
                (key_status tackled)(key_shoot 0 \<mapsto> no_keys (key_shoot 0)))"
    by blast
  then have h: "do_shoot no_keys tackled (players tackled ! 0) (Some (PlayerRef 6))
        = Inr (False, [Key_SPACE \<mapsto> False])"
    by (simp add: tackled_facts key_shoot_def no_keys_def)
  have o: "ball_owner (ball ready_game) = Some 1" by (simp add: ready_ball column_facts)
  have t: "shoot_target ready_game ?ow = Some (PlayerRef 3)"
    by (simp add: ready_game_def column_target del: One_nat_def)
  from shoot_decision[of ready_game ?ow no_keys "Some (PlayerRef 3)"] o ready_shoot
  have "ball_owner (ball kicked_game) = None \<longleftrightarrow>
          (\<exists>ks. do_shoot no_keys ready_game ?ow (shoot_target ready_game ?ow) = Inr (True, ks))"
    by blast
  with e t have k: "ball_owner (ball kicked_game) = None" by simp
  from shoot_decision[of ready_game ?ow no_keys "Some (PlayerRef 3)"] t
  have n: "targetable_players ready_game ?ow \<noteq> []" by simp
  from a b e f h o ready_shoot k t n show ?thesis by blast
qed

subsection \<open>Goals and kickoff\<close>

lemma roster_formation:
  "set_peers (make_players PLAYER_START_POS rnd 0) = map (kickoff_formation rnd) [0..<14]"
  by (simp add: upt_14 set_peers_def PLAYER_START_POS_def new_player_def kickoff_formation_def)


lemma reset_state:
  "reset rnd g =
     g\<lparr>players := (map (kickoff_formation rnd) [0..<14])
          [(if scoring_team g = 0 then 1 else 0) :=
             (kickoff_formation rnd (if scoring_team g = 0 then 1 else 0))
               \<lparr>vpos := (470 + 60 * real (if scoring_team g = 0 then 1 else 0 :: nat), 700)\<rparr>],
       goals := [\<lparr>goal_vpos = (500, 0), goal_team = 0\<rparr>, \<lparr>goal_vpos = (500, 1400), goal_team = 1\<rparr>],
       teams := ((teams g)[0 := (teams g ! 0)\<lparr>active_control_player := Some 0\<rparr>])
                  [1 := ((teams g)[0 := (teams g ! 0)\<lparr>active_control_player := Some 0\<rparr>] ! 1)
                          \<lparr>active_control_player := Some 1\<rparr>],
       kickoff_player := Some (if scoring_team g = 0 then 1 else 0),
       ball := \<lparr>ball_vpos = (500, 700), ball_vel = (0, 0), ball_owner = None, ball_timer = 0\<rparr>,
       camera_focus := (500, 700),
       debug_shoot_target := None\<rparr>"
  by (simp add: reset_def roster_formation Let_def new_ball_def new_goal_def upt_conv_Cons geom
        del: upt_Suc)

lemma score_countdown:
  "1 < score_timer g \<Longrightarrow> score_stage rnd g = g\<lparr>score_timer := score_timer g - 1\<rparr>"
  by (simp add: score_stage_def Let_def)

lemma score_reset:
  "score_timer g = 1 \<Longrightarrow> score_stage rnd g = reset rnd (g\<lparr>score_timer := 0\<rparr>)"
  by (simp add: score_stage_def Let_def)

lemma score_goal:
  assumes "score_timer g < 0" and "\<bar>snd (ball_vpos (ball g)) - 700\<bar> > 622"
  shows "score_stage rnd g =
     g\<lparr>score_timer := 60,
       scoring_team := (if snd (ball_vpos (ball g)) < 700 then 0 else 1),
       teams := (teams g)[(if snd (ball_vpos (ball g)) < 700 then 0 else 1) :=
                  (teams g ! (if snd (ball_vpos (ball g)) < 700 then 0 else 1))
                    \<lparr>score := score (teams g ! (if snd (ball_vpos (ball g)) < 700 then 0 else 1)) + 1\<rparr>]\<rparr>"
  using assms by (simp add: score_stage_def Let_def geom)


lemma score_countdown_iter:
  "score_timer g = int k + 1 \<Longrightarrow> (score_stage rnd ^^ k) g = g\<lparr>score_timer := 1\<rparr>"
proof (induction k arbitrary: g)
  case 0
  then show ?case by simp
next
  case (Suc k)
  then have "1 < score_timer g" by simp
  then have "score_stage rnd g = g\<lparr>score_timer := score_timer g - 1\<rparr>"
    by (rule score_countdown)
  moreover have "score_timer (g\<lparr>score_timer := score_timer g - 1\<rparr>) = int k + 1"
    using Suc.prems by simp
  ultimately show ?case
    using Suc.IH[of "g\<lparr>score_timer := score_timer g - 1\<rparr>"]
    by (simp add: funpow_Suc_right del: funpow.simps)
qed

lemma map_update_same: "(map f xs)[i := f (xs ! i)] = map f xs"
  by (simp add: map_update[symmetric])

lemma kickoff_formation_team: "team (kickoff_formation rnd i) = i mod 2"
  by (simp add: kickoff_formation_def Let_def split_beta)

text \<open>
  C7. In the frame in which the ball is beyond a goal line (its y is more than 622 from
  700) while the score timer is negative, \<^verbatim>\<open>Game.update\<close> sets the scoring team (0 when the
  ball is in the top half, else 1), adds exactly one to that team's score, leaves the other
  team's score, and sets the score timer to 60. While the timer is above 1 a frame only
  takes one off it; the frame that takes it from 1 to 0 calls \<^verbatim>\<open>Game.reset\<close>: from 60 that
  is the 60th frame. \<^verbatim>\<open>Game.reset\<close> builds a roster of 14 players in kickoff formation with
  the random offsets, moves the kickoff player beside the centre spot, puts a new free
  ball at rest on the centre (500, 700), and makes the kickoff player the first roster
  player of the team that did not score last; scores, score timer and scoring team are
  kept.
\<close>

theorem goal_then_reset:
  "(score_timer g < 0 \<and> \<bar>snd (ball_vpos (ball g)) - 700\<bar> > 622 \<and> length (teams g) = 2 \<longrightarrow>
      score_timer (score_stage rnd g) = 60
      \<and> scoring_team (score_stage rnd g) = (if snd (ball_vpos (ball g)) < 700 then 0 else 1)
      \<and> score (teams (score_stage rnd g) ! scoring_team (score_stage rnd g))
          = score (teams g ! scoring_team (score_stage rnd g)) + 1
      \<and> score (teams (score_stage rnd g) ! (1 - scoring_team (score_stage rnd g)))
          = score (teams g ! (1 - scoring_team (score_stage rnd g)))
      \<and> players (score_stage rnd g) = players g \<and> ball (score_stage rnd g) = ball g)
   \<and> (1 < score_timer g \<longrightarrow> score_stage rnd g = g\<lparr>score_timer := score_timer g - 1\<rparr>)
   \<and> (score_timer g = 1 \<longrightarrow> score_stage rnd g = reset rnd (g\<lparr>score_timer := 0\<rparr>))
   \<and> (score_timer g = 60 \<longrightarrow>
         (score_stage rnd ^^ 59) g = g\<lparr>score_timer := 1\<rparr>
         \<and> (score_stage rnd ^^ 60) g = reset rnd (g\<lparr>score_timer := 0\<rparr>))
   \<and> players (reset rnd g) =
        (map (kickoff_formation rnd) [0..<14])
          [other_team g := (kickoff_formation rnd (other_team g))
                             \<lparr>vpos := (470 + 60 * real (other_team g), 700)\<rparr>]
   \<and> ball (reset rnd g) = \<lparr>ball_vpos = (500, 700), ball_vel = (0, 0), ball_owner = None, ball_timer = 0\<rparr>
   \<and> kickoff_player (reset rnd g) = Some (other_team g)
   \<and> other_team g = (if scoring_team g = 0 then 1 else 0)
   \<and> team (players (reset rnd g) ! other_team g) = other_team g
   \<and> (\<forall>i<other_team g. team (players (reset rnd g) ! i) \<noteq> other_team g)
   \<and> map score (teams (reset rnd g)) = map score (teams g)
   \<and> score_timer (reset rnd g) = score_timer g
   \<and> scoring_team (reset rnd g) = scoring_team g"
proof -
  have goal: "score_timer g < 0 \<and> \<bar>snd (ball_vpos (ball g)) - 700\<bar> > 622 \<and> length (teams g) = 2 \<longrightarrow>
      score_timer (score_stage rnd g) = 60
      \<and> scoring_team (score_stage rnd g) = (if snd (ball_vpos (ball g)) < 700 then 0 else 1)
      \<and> score (teams (score_stage rnd g) ! scoring_team (score_stage rnd g))
          = score (teams g ! scoring_team (score_stage rnd g)) + 1
      \<and> score (teams (score_stage rnd g) ! (1 - scoring_team (score_stage rnd g)))
          = score (teams g ! (1 - scoring_team (score_stage rnd g)))
      \<and> players (score_stage rnd g) = players g \<and> ball (score_stage rnd g) = ball g"
    by (auto simp add: score_goal)
  have iter: "score_timer g = 60 \<longrightarrow>
         (score_stage rnd ^^ 59) g = g\<lparr>score_timer := 1\<rparr>
         \<and> (score_stage rnd ^^ 60) g = reset rnd (g\<lparr>score_timer := 0\<rparr>)"
  proof
    assume t: "score_timer g = 60"
    then have a: "(score_stage rnd ^^ 59) g = g\<lparr>score_timer := 1\<rparr>"
      using score_countdown_iter[of g 59 rnd] by simp
    have "(score_stage rnd ^^ 60) g = score_stage rnd ((score_stage rnd ^^ 59) g)"
      by (simp add: numeral_eq_Suc)
    also have "\<dots> = reset rnd (g\<lparr>score_timer := 0\<rparr>)"
      unfolding a by (simp add: score_reset)
    finally show "(score_stage rnd ^^ 59) g = g\<lparr>score_timer := 1\<rparr>
         \<and> (score_stage rnd ^^ 60) g = reset rnd (g\<lparr>score_timer := 0\<rparr>)"
      using a by simp
  qed
  have ps: "players (reset rnd g) =
        (map (kickoff_formation rnd) [0..<14])
          [other_team g := (kickoff_formation rnd (other_team g))
                             \<lparr>vpos := (470 + 60 * real (other_team g), 700)\<rparr>]"
    by (simp add: reset_state other_team_def)
  have tm: "team (players (reset rnd g) ! other_team g) = other_team g"
    unfolding ps by (simp add: other_team_def kickoff_formation_team)
  have first: "\<forall>i<other_team g. team (players (reset rnd g) ! i) \<noteq> other_team g"
    unfolding ps by (simp add: other_team_def kickoff_formation_team upt_14)
  have sc: "map score (teams (reset rnd g)) = map score (teams g)"
    by (simp add: reset_state map_update map_update_same)
  have cd: "1 < score_timer g \<longrightarrow> score_stage rnd g = g\<lparr>score_timer := score_timer g - 1\<rparr>"
    by (simp add: score_countdown)
  have rs: "score_timer g = 1 \<longrightarrow> score_stage rnd g = reset rnd (g\<lparr>score_timer := 0\<rparr>)"
    by (simp add: score_reset)
  have bl: "ball (reset rnd g)
      = \<lparr>ball_vpos = (500, 700), ball_vel = (0, 0), ball_owner = None, ball_timer = 0\<rparr>"
    by (simp add: reset_state)
  have kp: "kickoff_player (reset rnd g) = Some (other_team g)"
    by (simp add: reset_state other_team_def)
  have ot: "other_team g = (if scoring_team g = 0 then 1 else 0)"
    by (simp add: other_team_def)
  have stm: "score_timer (reset rnd g) = score_timer g"
    by (simp add: reset_state)
  have sgt: "scoring_team (reset rnd g) = scoring_team g"
    by (simp add: reset_state)
  from goal cd rs iter ps bl kp ot tm first sc stm sgt show ?thesis
    by blast
qed


theorem goal_then_reset_witness:
  "score_timer goal_game < 0
   \<and> \<bar>snd (ball_vpos (ball goal_game)) - 700\<bar> > 622
   \<and> length (teams goal_game) = 2
   \<and> score_timer (score_stage no_jitter goal_game) = 60
   \<and> scoring_team (score_stage no_jitter goal_game) = 1
   \<and> score (teams (score_stage no_jitter goal_game) ! 1) = 1
   \<and> score_stage no_jitter (score_stage no_jitter goal_game)
       = (score_stage no_jitter goal_game)\<lparr>score_timer := 59\<rparr>
   \<and> score_stage no_jitter (goal_game\<lparr>score_timer := 1\<rparr>)
       = reset no_jitter (goal_game\<lparr>score_timer := 0\<rparr>)
   \<and> kickoff_player ((score_stage no_jitter ^^ 60) (score_stage no_jitter goal_game)) = Some 0
   \<and> other_team (column_game\<lparr>scoring_team := 0\<rparr>) = 1
   \<and> team (players (reset no_jitter (column_game\<lparr>scoring_team := 0\<rparr>)) ! 0) \<noteq> 1
   \<and> team (players (reset no_jitter (column_game\<lparr>scoring_team := 0\<rparr>)) ! 1) = 1"
proof -
  let ?g = "score_stage no_jitter goal_game"
  let ?c = "column_game\<lparr>scoring_team := 0\<rparr>"
  have h: "score_timer goal_game < 0" "\<bar>snd (ball_vpos (ball goal_game)) - 700\<bar> > 622"
    "length (teams goal_game) = 2" "score (teams goal_game ! 1) = 0"
    by (simp_all add: goal_game_def column_game_def)
  from goal_then_reset[of goal_game no_jitter] h(1-3)
  have a: "score_timer ?g = 60"
    and b: "scoring_team ?g = (if snd (ball_vpos (ball goal_game)) < 700 then 0 else 1)"
    and c: "score (teams ?g ! scoring_team ?g) = score (teams goal_game ! scoring_team ?g) + 1"
    by blast+
  from b have b': "scoring_team ?g = 1" by (simp add: goal_game_def)
  from c b' h(4) have c': "score (teams ?g ! 1) = 1" by simp
  from goal_then_reset[of ?g no_jitter] a
  have i: "(score_stage no_jitter ^^ 60) ?g = reset no_jitter (?g\<lparr>score_timer := 0\<rparr>)"
    and cd: "score_stage no_jitter ?g = ?g\<lparr>score_timer := score_timer ?g - 1\<rparr>"
    by simp_all
  from cd a have cd': "score_stage no_jitter ?g = ?g\<lparr>score_timer := 59\<rparr>" by simp
  from goal_then_reset[of "goal_game\<lparr>score_timer := 1\<rparr>" no_jitter]
  have r: "score_stage no_jitter (goal_game\<lparr>score_timer := 1\<rparr>)
       = reset no_jitter (goal_game\<lparr>score_timer := 0\<rparr>)"
    by simp
  from goal_then_reset[of "?g\<lparr>score_timer := 0\<rparr>" no_jitter]
  have "kickoff_player (reset no_jitter (?g\<lparr>score_timer := 0\<rparr>))
        = Some (other_team (?g\<lparr>score_timer := 0\<rparr>))"
    by blast
  moreover have "other_team (?g\<lparr>score_timer := 0\<rparr>) = 0"
    using b' by (simp add: other_team_def)
  ultimately have d: "kickoff_player ((score_stage no_jitter ^^ 60) ?g) = Some 0"
    using i by simp
  have o: "other_team ?c = 1" by (simp add: other_team_def)
  from goal_then_reset[of ?c no_jitter]
  have "team (players (reset no_jitter ?c) ! other_team ?c) = other_team ?c"
    and "\<forall>i<other_team ?c. team (players (reset no_jitter ?c) ! i) \<noteq> other_team ?c"
    by blast+
  with o have e: "team (players (reset no_jitter ?c) ! 1) = 1"
      "team (players (reset no_jitter ?c) ! 0) \<noteq> 1"
    by simp_all
  from h(1-3) a b' c' cd' r d o e show ?thesis by blast
qed

subsection \<open>Roles\<close>

lemma min_key_in: "min_key k x xs \<in> set (x # xs)"
proof -
  have "foldl (\<lambda>best e. if k e < k best then e else best) a xs \<in> set (a # xs)" for a
    by (induction xs arbitrary: a) auto
  then show ?thesis by (simp add: min_key_def)
qed

lemma py_min_in: "py_min k xs = Inr m \<Longrightarrow> m \<in> set xs"
  using min_key_in[of k] by (auto simp add: py_min_def split: list.splits)

lemma py_min_nonempty: "xs \<noteq> [] \<Longrightarrow> \<exists>m. py_min k xs = Inr m"
  by (simp add: py_min_def split: list.splits)

lemma zipped_empty: "zipped [] [] = []"
  by (simp add: zipped_def List.map_filter_def)

lemma assign_leads_empty: "assign_leads g [] = Inl IndexError"
  by (simp add: assign_leads_def)

lemma no_chasers_error:
  assumes "\<forall>i<length (players g1). \<not> chaser_ok g1 (team (players g1 ! oi)) i"
  shows "(case assign_leads g1 (zipped (filter (upfield g1 oi) (chasers g1 oi))
                 (filter (\<lambda>p. p \<notin> set (filter (upfield g1 oi) (chasers g1 oi))) (chasers g1 oi))) of
            Inl e \<Rightarrow> Inl e | Inr g2 \<Rightarrow> Inr (g2\<lparr>kickoff_player := None\<rparr>)) = Inl IndexError"
proof -
  have "filter (chaser_ok g1 (team (players g1 ! oi))) [0..<length (players g1)] = []"
    using assms by (simp add: filter_empty_conv)
  then have "chasers g1 oi = []" by (simp add: chasers_def Let_def)
  then show ?thesis by (simp add: zipped_empty assign_leads_empty)
qed

text \<open>The fields of a player that the role assignment reads but does not write.\<close>

lemma mark_update_nth:
  "team ((ps[j := (ps ! j)\<lparr>mark := m\<rparr>]) ! i) = team (ps ! i)"
  "timer ((ps[j := (ps ! j)\<lparr>mark := m\<rparr>]) ! i) = timer (ps ! i)"
  by (cases "j < length ps"; cases "j = i"; simp add: not_less list_update_beyond)+

lemma reset_roles_nth:
  assumes "i < length (players g)"
  shows "team (players (reset_roles g) ! i) = team (players g ! i)"
    and "timer (players (reset_roles g) ! i) = timer (players g ! i)"
    and "vpos (players (reset_roles g) ! i) = vpos (players g ! i)"
    and "mark (players (reset_roles g) ! i) = Some (PlayerRef (peer (players g ! i)))"
  using assms by (simp_all add: reset_roles_def)

lemma reset_roles_other:
  "length (players (reset_roles g)) = length (players g)"
  "teams (reset_roles g) = teams g" "goals (reset_roles g) = goals g"
  "ball (reset_roles g) = ball g" "difficulty (reset_roles g) = difficulty g"
  by (simp_all add: reset_roles_def)

lemma goalie_reset_roles:
  assumes "oi < length (players g)"
  shows "goalie (reset_roles g) oi = goalie g oi"
proof -
  let ?n = "length (players g)"
  have f: "filter (\<lambda>i. team (players (reset_roles g) ! i) \<noteq> team (players (reset_roles g) ! oi)) [0..<?n]
         = filter (\<lambda>i. team (players g ! i) \<noteq> team (players g ! oi)) [0..<?n]"
    using assms by (intro filter_cong) (simp_all add: reset_roles_nth)
  have k: "py_min (\<lambda>i. dist_key c (vpos (players (reset_roles g) ! i))) xs
         = py_min (\<lambda>i. dist_key c (vpos (players g ! i))) xs" if "set xs \<subseteq> {0..<?n}" for xs c
  proof (cases xs)
    case Nil
    then show ?thesis by (simp add: py_min_def)
  next
    case (Cons x r)
    have "foldl (\<lambda>best e. if dist_key c (vpos (players (reset_roles g) ! e))
                               < dist_key c (vpos (players (reset_roles g) ! best)) then e else best) a r
        = foldl (\<lambda>best e. if dist_key c (vpos (players g ! e))
                               < dist_key c (vpos (players g ! best)) then e else best) a r"
      if "set r \<subseteq> {0..<?n}" "a < ?n" for a r
      using that by (induction r arbitrary: a) (simp_all add: reset_roles_nth)
    with that Cons show ?thesis by (simp add: py_min_def min_key_def)
  qed
  show ?thesis
    unfolding goalie_def reset_roles_other f
    using assms by (subst k) (auto simp add: reset_roles_nth reset_roles_other)
qed


lemma assign_goalie_goalie:
  "assign_goalie g oi =
     (case goalie g oi of
        Inl e \<Rightarrow> Inl e
      | Inr nearest \<Rightarrow>
          Inr (g\<lparr>players :=
                 ((players g)[peer (players g ! oi) :=
                     (players g ! peer (players g ! oi))\<lparr>mark := mark (players g ! nearest)\<rparr>])
                 [nearest :=
                    (((players g)[peer (players g ! oi) :=
                        (players g ! peer (players g ! oi))\<lparr>mark := mark (players g ! nearest)\<rparr>])
                     ! nearest)\<lparr>mark := Some (GoalRef (team (players g ! oi)))\<rparr>]\<rparr>))"
  by (simp add: assign_goalie_def goalie_def Let_def split: sum.splits)

lemma goalie_range: "goalie g oi = Inr m \<Longrightarrow> m < length (players g)"
  using py_min_in[of _ _ m] by (fastforce simp add: goalie_def)

lemma chaser_ok_iff:
  "chaser_ok g tm i \<longleftrightarrow>
     team (players g ! i) \<noteq> tm \<and> timer (players g ! i) \<le> 0
     \<and> (\<not> human (teams g ! 1) \<or> Some i \<noteq> active_control_player (teams g ! 1))
     \<and> \<not> marks_goal (players g ! i)"
  by (simp add: chaser_ok_def Let_def)

lemma assign_roles_no_goalie:
  assumes "\<not> goalie_enabled (difficulty g0)"
    and "\<forall>i<length (players g0). \<not> chaser_ok g0 (team (players g0 ! oi)) i"
  shows "assign_roles g0 oi = Inl IndexError"
  using assms(1) no_chasers_error[OF assms(2)] by (simp add: assign_roles_def Let_def)

lemma assign_roles_goalie:
  assumes en: "goalie_enabled (difficulty g0)"
    and near: "goalie g0 oi = Inr m"
    and filt: "\<forall>i<length (players g0). team (players g0 ! i) \<noteq> team (players g0 ! oi) \<longrightarrow>
                 0 < timer (players g0 ! i)
                 \<or> (human (teams g0 ! 1) \<and> active_control_player (teams g0 ! 1) = Some i)
                 \<or> i = m"
  shows "assign_roles g0 oi = Inl IndexError"
proof -
  let ?ps0 = "players g0"
  let ?ps1 = "?ps0[peer (?ps0 ! oi) := (?ps0 ! peer (?ps0 ! oi))\<lparr>mark := mark (?ps0 ! m)\<rparr>]"
  let ?ps2 = "?ps1[m := (?ps1 ! m)\<lparr>mark := Some (GoalRef (team (?ps0 ! oi)))\<rparr>]"
  let ?g1 = "g0\<lparr>players := ?ps2\<rparr>"
  have ag: "assign_goalie g0 oi = Inr ?g1"
    by (simp add: assign_goalie_goalie near)
  have m: "m < length ?ps0" using near by (rule goalie_range)
  have tm: "team (?ps2 ! i) = team (?ps0 ! i)" for i by (simp add: mark_update_nth)
  have ti: "timer (?ps2 ! i) = timer (?ps0 ! i)" for i by (simp add: mark_update_nth)
  have mg: "marks_goal (?ps2 ! m)" using m by (simp add: marks_goal_def)
  have "\<not> chaser_ok ?g1 (team (players ?g1 ! oi)) i" if "i < length (players ?g1)" for i
  proof (cases "i = m")
    case True
    with mg show ?thesis by (simp add: chaser_ok_iff)
  next
    case False
    from that have i: "i < length ?ps0" by simp
    show ?thesis
    proof (cases "team (?ps0 ! i) = team (?ps0 ! oi)")
      case True
      then show ?thesis by (simp add: chaser_ok_iff tm)
    next
      case ne: False
      with filt i False
      have "0 < timer (?ps0 ! i)
            \<or> (human (teams g0 ! 1) \<and> active_control_player (teams g0 ! 1) = Some i)"
        by blast
      then show ?thesis by (auto simp add: chaser_ok_iff tm ti)
    qed
  qed
  then have "\<forall>i<length (players ?g1). \<not> chaser_ok ?g1 (team (players ?g1 ! oi)) i" by blast
  from no_chasers_error[OF this] en ag show ?thesis
    by (simp add: assign_roles_def Let_def)
qed

lemma assign_roles_goalie_none:
  assumes en: "goalie_enabled (difficulty g0)"
    and opp: "\<exists>i<length (players g0). team (players g0 ! i) \<noteq> team (players g0 ! oi)"
  shows "\<exists>m. goalie g0 oi = Inr m"
proof -
  from opp obtain i where "i < length (players g0)"
      "team (players g0 ! i) \<noteq> team (players g0 ! oi)" by blast
  then have "i \<in> set (filter (\<lambda>i. team (players g0 ! i) \<noteq> team (players g0 ! oi))
                         [0..<length (players g0)])"
    by simp
  then have "filter (\<lambda>i. team (players g0 ! i) \<noteq> team (players g0 ! oi))
                [0..<length (players g0)] \<noteq> []"
    by (metis empty_iff empty_set)
  then show ?thesis unfolding goalie_def by (rule py_min_nonempty)
qed

text \<open>
  When the ball is owned and the filter of \<^verbatim>\<open>Game.update\<close> keeps every player of the other
  team out of the list of chasers (its hold-off timer is positive, or it is the active
  player of team 1 while team 1 is played from the keyboard, or it is the player made to
  mark the goal), the list is empty and \<^verbatim>\<open>zipped[0]\<close> raises \<^verbatim>\<open>IndexError\<close>. (With the
  goalkeeper enabled the other team must have a player at all, or \<^verbatim>\<open>min\<close> raises
  \<^verbatim>\<open>ValueError\<close> before.)
\<close>

lemma roles_stage_no_chasers:
  "oi < length (players g) \<and> ball_owner (ball g) = Some oi
   \<and> (goalie_enabled (difficulty g) \<longrightarrow>
        (\<exists>i<length (players g). team (players g ! i) \<noteq> team (players g ! oi)))
   \<and> (\<forall>i<length (players g). team (players g ! i) \<noteq> team (players g ! oi) \<longrightarrow>
        0 < timer (players g ! i)
        \<or> (human (teams g ! 1) \<and> active_control_player (teams g ! 1) = Some i)
        \<or> (goalie_enabled (difficulty g) \<and> goalie g oi = Inr i))
   \<longrightarrow> roles_stage g = Inl IndexError"
proof (intro impI, elim conjE)
  assume oi: "oi < length (players g)" and own: "ball_owner (ball g) = Some oi"
    and opp: "goalie_enabled (difficulty g) \<longrightarrow>
        (\<exists>i<length (players g). team (players g ! i) \<noteq> team (players g ! oi))"
    and filt: "\<forall>i<length (players g). team (players g ! i) \<noteq> team (players g ! oi) \<longrightarrow>
        0 < timer (players g ! i)
        \<or> (human (teams g ! 1) \<and> active_control_player (teams g ! 1) = Some i)
        \<or> (goalie_enabled (difficulty g) \<and> goalie g oi = Inr i)"
  let ?g0 = "reset_roles g"
  have rs: "roles_stage g = assign_roles ?g0 oi"
    using own by (simp add: roles_stage_def Let_def reset_roles_other)
  have filt0: "\<forall>i<length (players ?g0). team (players ?g0 ! i) \<noteq> team (players ?g0 ! oi) \<longrightarrow>
        0 < timer (players ?g0 ! i)
        \<or> (human (teams ?g0 ! 1) \<and> active_control_player (teams ?g0 ! 1) = Some i)
        \<or> (goalie_enabled (difficulty ?g0) \<and> goalie ?g0 oi = Inr i)"
    using filt oi by (simp add: reset_roles_nth reset_roles_other goalie_reset_roles)
  show "roles_stage g = Inl IndexError"
  proof (cases "goalie_enabled (difficulty g)")
    case False
    have "\<forall>i<length (players ?g0). \<not> chaser_ok ?g0 (team (players ?g0 ! oi)) i"
    proof (intro allI impI)
      fix i assume i: "i < length (players ?g0)"
      show "\<not> chaser_ok ?g0 (team (players ?g0 ! oi)) i"
      proof (cases "team (players ?g0 ! i) = team (players ?g0 ! oi)")
        case True
        then show ?thesis by (simp add: chaser_ok_iff)
      next
        case ne: False
        with filt0 i False
        have "0 < timer (players ?g0 ! i)
            \<or> (human (teams ?g0 ! 1) \<and> active_control_player (teams ?g0 ! 1) = Some i)"
          by (auto simp add: reset_roles_other)
        then show ?thesis by (auto simp add: chaser_ok_iff)
      qed
    qed
    with False show ?thesis
      unfolding rs by (intro assign_roles_no_goalie) (simp_all add: reset_roles_other)
  next
    case True
    have "\<exists>i<length (players ?g0). team (players ?g0 ! i) \<noteq> team (players ?g0 ! oi)"
      using opp True oi by (auto simp add: reset_roles_nth reset_roles_other)
    with True obtain m where m: "goalie ?g0 oi = Inr m"
      using assign_roles_goalie_none[of ?g0 oi] by (auto simp add: reset_roles_other)
    have "\<forall>i<length (players ?g0). team (players ?g0 ! i) \<noteq> team (players ?g0 ! oi) \<longrightarrow>
                 0 < timer (players ?g0 ! i)
                 \<or> (human (teams ?g0 ! 1) \<and> active_control_player (teams ?g0 ! 1) = Some i)
                 \<or> i = m"
      using filt0 m by auto
    with True m show ?thesis
      unfolding rs by (intro assign_roles_goalie[where m = m]) (simp_all add: reset_roles_other)
  qed
qed


lemma stalled_facts:
  "length (players stalled_game) = 14"
  "ball_owner (ball stalled_game) = Some 1"
  "goalie_enabled (difficulty stalled_game)"
  "team (players stalled_game ! 1) = 1"
  "team (players stalled_game ! 0) = 0"
  by (simp_all add: stalled_game_def eval_defs)

lemma stalled_timers:
  "\<forall>i<length (players stalled_game).
     team (players stalled_game ! i) \<noteq> team (players stalled_game ! 1) \<longrightarrow>
     0 < timer (players stalled_game ! i)"
proof -
  have "list_all (\<lambda>p. team p \<noteq> 1 \<longrightarrow> 0 < timer p) (players stalled_game)"
    by (simp add: stalled_game_def eval_defs)
  then show ?thesis by (simp add: list_all_length stalled_facts(4) del: One_nat_def)
qed

lemma stalled_roles_error:
  "1 < length (players stalled_game)
   \<and> ball_owner (ball stalled_game) = Some 1
   \<and> goalie_enabled (difficulty stalled_game)
   \<and> roles_stage stalled_game = Inl IndexError"
proof -
  have a: "1 < length (players stalled_game)" by (simp add: stalled_facts)
  have b: "\<exists>i<length (players stalled_game).
            team (players stalled_game ! i) \<noteq> team (players stalled_game ! 1)"
    using stalled_facts(1,4,5) by (intro exI[of _ 0]) (simp del: One_nat_def)
  have c: "\<forall>i<length (players stalled_game).
        team (players stalled_game ! i) \<noteq> team (players stalled_game ! 1) \<longrightarrow>
        0 < timer (players stalled_game ! i)
        \<or> (human (teams stalled_game ! 1) \<and> active_control_player (teams stalled_game ! 1) = Some i)
        \<or> (goalie_enabled (difficulty stalled_game) \<and> goalie stalled_game 1 = Inr i)"
    using stalled_timers by blast
  from roles_stage_no_chasers[of 1 stalled_game] a b c stalled_facts(2)
  have "roles_stage stalled_game = Inl IndexError" by blast
  with a stalled_facts(2,3) show ?thesis by blast
qed







subsection \<open>The free ball after a whole update\<close>
















end
